theory Spec2Isabelle
  imports Main
begin

section \<open>Python arithmetic used by the negotiation code\<close>

text \<open>
  The agents compute every price as \<open>int(n * c)\<close> and every threshold as \<open>n * c\<close>, where
  \<open>n\<close> is a Python \<open>int\<close> (unbounded) and \<open>c\<close> is a float literal. Python converts \<open>n\<close> to a
  binary64 float (round to nearest, ties to even; \<open>OverflowError\<close> when the result would not
  be finite), multiplies in binary64 (again round to nearest even; an overflowing product is
  \<open>inf\<close>), truncates towards zero in \<open>int(...)\<close> (\<open>OverflowError\<close> on \<open>inf\<close>), and compares an
  \<open>int\<close> with a float by their exact values. All of this is integer arithmetic on
  numerators over a power of two, which is how it is written here.
\<close>

datatype error = OverflowError | IndexError | ZeroDivisionError | TypeError

definition bind_err :: "error + 'a \<Rightarrow> ('a \<Rightarrow> error + 'b) \<Rightarrow> error + 'b" where
  "bind_err r f = (case r of Inl e \<Rightarrow> Inl e | Inr v \<Rightarrow> f v)"

text \<open>
  The spacing of the binary64 grid around a non-negative integer \<open>n\<close>: the power of two
  \<open>u\<close> with \<open>n div u\<close> below \<open>2 ^ 53\<close> (and at least \<open>2 ^ 52\<close> unless \<open>u = 1\<close>).
\<close>

function ulp53 :: "int \<Rightarrow> int" where
  "ulp53 n = (if n < 2 ^ 53 then 1 else 2 * ulp53 (n div 2))"
  by pat_completeness auto
termination
  by (relation "measure nat") auto

declare ulp53.simps [simp del]

text \<open>Rounding a non-negative integer to 53 significant bits, ties to even.\<close>

definition round53 :: "int \<Rightarrow> int" where
  "round53 n =
     (let u = ulp53 n; q = n div u; r = n mod u
      in (if u < 2 * r \<or> (2 * r = u \<and> odd q) then q + 1 else q) * u)"

text \<open>
  A float is \<open>Finite m k\<close>, standing for \<open>m / 2 ^ k\<close>, or an infinity. A float literal is the
  pair \<open>(m, k)\<close> of its exact binary64 value \<open>m / 2 ^ k\<close>.
\<close>

datatype pyfloat = Finite int nat | PosInf | NegInf

type_synonym float_literal = "int \<times> nat"

definition lit_0_6 :: float_literal where "lit_0_6 = (5404319552844595, 53)"
definition lit_0_85 :: float_literal where "lit_0_85 = (7656119366529843, 53)"
definition lit_0_95 :: float_literal where "lit_0_95 = (4278419646001971, 52)"
definition lit_1_05 :: float_literal where "lit_1_05 = (4728779608739021, 52)"
definition lit_1_1 :: float_literal where "lit_1_1 = (2476979795053773, 51)"
definition lit_1_15 :: float_literal where "lit_1_15 = (2589569785738035, 51)"
definition lit_1_5 :: float_literal where "lit_1_5 = (3, 1)"

text \<open>The value of \<open>float(x)\<close> for an \<open>int\<close> \<open>x\<close>; it is an integer.\<close>

definition float_of_int :: "int \<Rightarrow> error + int" where
  "float_of_int x =
     (let a = round53 \<bar>x\<bar> in if 2 ^ 1024 \<le> a then Inl OverflowError else Inr (sgn x * a))"

text \<open>\<open>x * c\<close> for an \<open>int\<close> \<open>x\<close> and a positive float literal \<open>c\<close>.\<close>

definition py_mul :: "int \<Rightarrow> float_literal \<Rightarrow> error + pyfloat" where
  "py_mul x c =
     bind_err (float_of_int x) (\<lambda>xf.
       let p = round53 (\<bar>xf\<bar> * fst c)
       in Inr (if 2 ^ (1024 + snd c) \<le> p then (if 0 < xf then PosInf else NegInf)
               else Finite (sgn xf * p) (snd c)))"

text \<open>\<open>int(f)\<close> truncates towards zero; \<open>math.floor\<close> rounds down.\<close>

fun py_int :: "pyfloat \<Rightarrow> error + int" where
  "py_int (Finite m k) = Inr (sgn m * (\<bar>m\<bar> div 2 ^ k))"
| "py_int PosInf = Inl OverflowError"
| "py_int NegInf = Inl OverflowError"

fun py_floor :: "pyfloat \<Rightarrow> error + int" where
  "py_floor (Finite m k) = Inr (m div 2 ^ k)"
| "py_floor PosInf = Inl OverflowError"
| "py_floor NegInf = Inl OverflowError"

text \<open>\<open>s < f\<close>, \<open>s > f\<close> and \<open>s >= f\<close> for an \<open>int\<close> \<open>s\<close> and a float \<open>f\<close>.\<close>

fun int_lt_float :: "int \<Rightarrow> pyfloat \<Rightarrow> bool" where
  "int_lt_float s (Finite m k) = (s * 2 ^ k < m)"
| "int_lt_float s PosInf = True"
| "int_lt_float s NegInf = False"

fun int_gt_float :: "int \<Rightarrow> pyfloat \<Rightarrow> bool" where
  "int_gt_float s (Finite m k) = (m < s * 2 ^ k)"
| "int_gt_float s PosInf = False"
| "int_gt_float s NegInf = True"

fun int_ge_float :: "int \<Rightarrow> pyfloat \<Rightarrow> bool" where
  "int_ge_float s (Finite m k) = (m \<le> s * 2 ^ k)"
| "int_ge_float s PosInf = False"
| "int_ge_float s NegInf = True"

text \<open>\<open>xs[-1]\<close> raises \<open>IndexError\<close> on an empty list.\<close>

definition py_last :: "'a list \<Rightarrow> error + 'a" where
  "py_last xs = (if xs = [] then Inl IndexError else Inr (last xs))"

text \<open>
  \<open>a / b\<close> on two \<open>int\<close>s is a correctly rounded binary64 quotient. The report only stores
  it, so the model keeps its operands and its two exceptions: a zero divisor, and a quotient
  that rounds to \<open>2 ^ 1024\<close> or more.
\<close>

datatype quotient = Quotient int int

definition py_truediv :: "int \<Rightarrow> int \<Rightarrow> error + quotient" where
  "py_truediv a b =
     (if b = 0 then Inl ZeroDivisionError
      else if (2 ^ 1024 - 2 ^ 970) * \<bar>b\<bar> \<le> \<bar>a\<bar> then Inl OverflowError
      else Inr (Quotient a b))"

section \<open>Data model\<close>

datatype attribute = Text string | Flag bool

record Product =
  name :: string
  category :: string
  quantity :: int
  quality_grade :: string
  origin :: string
  base_market_price :: int
  attributes :: "string \<rightharpoonup> attribute"

datatype role = Buyer | Seller

datatype DealStatus = ONGOING | ACCEPTED | REJECTED | TIMEOUT

text \<open>
  A message is the buyer's or the seller's opening f-string (kept as its template arguments)
  or whatever the language model answered.
\<close>

datatype message =
    OpeningOffer int
  | OpeningPrice string string int
  | Generated string

record NegotiationContext =
  product :: Product
  your_budget :: int
  current_round :: int
  seller_offers :: "int list"
  your_offers :: "int list"
  messages :: "(role \<times> message) list"

text \<open>
  \<open>NegotiationLLM().call(prompt, ...)\<close> is the external text producer. A request carries the
  keyword arguments that vary: the counterpart's message, the \<open>deal_status\<close> text, and the
  price (for the seller also the buyer's offer). The producer is a parameter \<open>llm\<close> of
  every function that calls it; it is taken to answer every request (a failure of the
  service is outside the model).
\<close>

datatype deal_status_text =
    Status DealStatus
  | OngoingNearClose
  | AcceptedAtBuyerPrice
  | TimeoutRunningOut
  | OngoingComeDownTo int

datatype llm_request =
    BuyerPrompt message deal_status_text int
  | SellerPrompt message int deal_status_text int

type_synonym llm = "llm_request \<Rightarrow> string"

section \<open>Buyer strategy\<close>

definition generate_opening_offer :: "NegotiationContext \<Rightarrow> error + int \<times> message" where
  "generate_opening_offer ctx =
     bind_err (py_mul (base_market_price (product ctx)) lit_0_6) (\<lambda>f.
     bind_err (py_int f) (\<lambda>i.
       let initial_offer = min i (your_budget ctx)
       in Inr (initial_offer, OpeningOffer initial_offer)))"

text \<open>The acceptance test; \<open>and\<close> evaluates the product only if the first comparison holds.\<close>

definition buyer_accepts :: "NegotiationContext \<Rightarrow> int \<Rightarrow> error + bool" where
  "buyer_accepts ctx seller_price =
     (if seller_price < your_budget ctx
      then bind_err (py_mul (base_market_price (product ctx)) lit_0_85) (\<lambda>t.
             Inr (int_lt_float seller_price t))
      else Inr False)"

definition respond_to_seller_offer ::
  "llm \<Rightarrow> NegotiationContext \<Rightarrow> int \<Rightarrow> message \<Rightarrow> error + DealStatus \<times> int \<times> message" where
  "respond_to_seller_offer call ctx seller_price seller_message =
     bind_err (buyer_accepts ctx seller_price) (\<lambda>accept.
       if accept
       then Inr (ACCEPTED, seller_price,
                 Generated (call (BuyerPrompt seller_message (Status ACCEPTED) seller_price)))
       else
         bind_err (py_last (your_offers ctx)) (\<lambda>last_offer.
         bind_err (py_mul last_offer lit_1_1) (\<lambda>f.
         bind_err (py_int f) (\<lambda>i.
           let little_incremented_price = min i (your_budget ctx)
           in bind_err (py_mul seller_price lit_0_95) (\<lambda>t.
                if int_gt_float little_incremented_price t
                then let little_incremented_price = min (seller_price - 1000) (your_budget ctx)
                     in Inr (ONGOING, little_incremented_price,
                             Generated (call (BuyerPrompt seller_message OngoingNearClose
                                                little_incremented_price)))
                else Inr (ONGOING, little_incremented_price,
                          Generated (call (BuyerPrompt seller_message (Status ONGOING)
                                             little_incremented_price))))))))"

section \<open>Seller strategy\<close>

record MockSellerAgent =
  min_price :: int
  personality :: string

text \<open>\<open>MockSellerAgent(min_price=...)\<close>, with the default personality.\<close>

definition MockSellerAgent_init :: "int \<Rightarrow> MockSellerAgent" where
  "MockSellerAgent_init seller_min = \<lparr>min_price = seller_min, personality = ''standard''\<rparr>"

definition get_opening_price :: "Product \<Rightarrow> error + int \<times> message" where
  "get_opening_price p =
     bind_err (py_mul (base_market_price p) lit_1_5) (\<lambda>f.
     bind_err (py_int f) (\<lambda>price.
       Inr (price, OpeningPrice (quality_grade p) (name p) price)))"

definition respond_to_buyer_offer ::
  "llm \<Rightarrow> MockSellerAgent \<Rightarrow> int \<Rightarrow> int \<Rightarrow> message \<Rightarrow> error + int \<times> message \<times> bool" where
  "respond_to_buyer_offer call self buyer_offer round_num buyer_message =
     bind_err (py_mul (min_price self) lit_1_1) (\<lambda>t.
       if int_ge_float buyer_offer t
       then Inr (buyer_offer,
                 Generated (call (SellerPrompt buyer_message buyer_offer AcceptedAtBuyerPrice
                                    buyer_offer)),
                 True)
       else
         bind_err (py_mul buyer_offer (if 8 \<le> round_num then lit_1_05 else lit_1_15)) (\<lambda>f.
         bind_err (py_int f) (\<lambda>i.
           let counter = max (min_price self) i
           in Inr (counter,
                   Generated (call (SellerPrompt buyer_message buyer_offer
                                      (if 8 \<le> round_num then TimeoutRunningOut
                                       else OngoingComeDownTo counter)
                                      counter)),
                   False))))"

section \<open>Orchestrator\<close>

text \<open>
  The local variables of \<open>run_negotiation_test\<close> that the round loop reads and writes. The
  buyer agent passed in is the \<open>MockBuyerAgent\<close> above (the only implementation of
  \<open>BaseBuyerAgent\<close>); console output is left out.
\<close>

record locals =
  negotiation :: NegotiationContext
  seller_price :: int
  seller_msg :: message
  deal_made :: bool
  final_price :: "int option"

text \<open>How one pass through the loop body ends: at its last statement, or at a \<open>break\<close>.\<close>

datatype flow = Continue locals | Break locals

fun after :: "flow \<Rightarrow> locals" where
  "after (Continue s) = s"
| "after (Break s) = s"

definition initial_locals :: "Product \<Rightarrow> int \<Rightarrow> error + locals" where
  "initial_locals p buyer_budget =
     bind_err (get_opening_price p) (\<lambda>(price, msg).
       Inr \<lparr>negotiation = \<lparr>product = p, your_budget = buyer_budget, current_round = 0,
                         seller_offers = [price], your_offers = [],
                         messages = [(Seller, msg)]\<rparr>,
            seller_price = price, seller_msg = msg, deal_made = False, final_price = None\<rparr>)"

definition buyer_turn ::
  "llm \<Rightarrow> nat \<Rightarrow> NegotiationContext \<Rightarrow> int \<Rightarrow> message \<Rightarrow> error + DealStatus \<times> int \<times> message" where
  "buyer_turn call round ctx price msg =
     (if round = 0
      then bind_err (generate_opening_offer ctx) (\<lambda>(buyer_offer, buyer_msg).
             Inr (ONGOING, buyer_offer, buyer_msg))
      else respond_to_seller_offer call ctx price msg)"

definition round_body :: "llm \<Rightarrow> MockSellerAgent \<Rightarrow> nat \<Rightarrow> locals \<Rightarrow> error + flow" where
  "round_body call seller round s =
     (let ctx = (negotiation s)\<lparr>current_round := int round + 1\<rparr>
      in bind_err (buyer_turn call round ctx (seller_price s) (seller_msg s))
           (\<lambda>(status, buyer_offer, buyer_msg).
         let ctx = ctx\<lparr>your_offers := your_offers ctx @ [buyer_offer],
                       messages := messages ctx @ [(Buyer, buyer_msg)]\<rparr>
         in if status = ACCEPTED
            then Inr (Break (s\<lparr>negotiation := ctx, deal_made := True,
                                final_price := Some (seller_price s)\<rparr>))
            else bind_err (respond_to_buyer_offer call seller buyer_offer (int round) buyer_msg)
                   (\<lambda>(price, msg, seller_accepts).
                 if seller_accepts
                 then Inr (Break (s\<lparr>negotiation := ctx\<lparr>messages := messages ctx @ [(Seller, msg)]\<rparr>,
                                     seller_price := price, seller_msg := msg,
                                     deal_made := True, final_price := Some buyer_offer\<rparr>))
                 else Inr (Continue (s\<lparr>negotiation := ctx\<lparr>seller_offers := seller_offers ctx @ [price],
                                                         messages := messages ctx @ [(Seller, msg)]\<rparr>,
                                        seller_price := price, seller_msg := msg\<rparr>)))))"

text \<open>\<open>for round in rounds: ...\<close>, stopping at a \<open>break\<close> or an exception.\<close>

fun for_rounds :: "llm \<Rightarrow> MockSellerAgent \<Rightarrow> nat list \<Rightarrow> locals \<Rightarrow> error + flow" where
  "for_rounds call seller [] s = Inr (Continue s)"
| "for_rounds call seller (round # rest) s =
     (case round_body call seller round s of
        Inl e \<Rightarrow> Inl e
      | Inr (Break s') \<Rightarrow> Inr (Break s')
      | Inr (Continue s') \<Rightarrow> for_rounds call seller rest s')"

text \<open>The function up to its \<open>return\<close>: the locals when the loop is left.\<close>

definition negotiate :: "llm \<Rightarrow> Product \<Rightarrow> int \<Rightarrow> int \<Rightarrow> error + locals" where
  "negotiate call p buyer_budget seller_min =
     bind_err (initial_locals p buyer_budget) (\<lambda>s.
     bind_err (for_rounds call (MockSellerAgent_init seller_min) [0..<10] s)
       (\<lambda>fl. Inr (after fl)))"

record outcome =
  out_deal_made :: bool
  out_final_price :: "int option"
  rounds :: int
  savings :: int
  savings_pct :: "quotient option"
  below_market_pct :: "quotient option"
  conversation :: "(role \<times> message) list"

text \<open>
  The dictionary returned. The two percentages are \<open>a / b * 100\<close> when a deal was made (kept
  as \<open>Some (Quotient a b)\<close>) and the integer \<open>0\<close> otherwise (\<open>None\<close>). Subtracting a
  \<open>final_price\<close> that is still \<open>None\<close> would be a \<open>TypeError\<close>.
\<close>

definition report :: "Product \<Rightarrow> int \<Rightarrow> locals \<Rightarrow> error + outcome" where
  "report p buyer_budget s =
     (if deal_made s
      then (case final_price s of
              None \<Rightarrow> Inl TypeError
            | Some price \<Rightarrow>
                bind_err (py_truediv (buyer_budget - price) buyer_budget) (\<lambda>q1.
                bind_err (py_truediv (base_market_price p - price) (base_market_price p)) (\<lambda>q2.
                  Inr \<lparr>out_deal_made = True, out_final_price = final_price s,
                       rounds = current_round (negotiation s),
                       savings = buyer_budget - price,
                       savings_pct = Some q1, below_market_pct = Some q2,
                       conversation = messages (negotiation s)\<rparr>)))
      else Inr \<lparr>out_deal_made = False, out_final_price = final_price s,
                rounds = current_round (negotiation s), savings = 0,
                savings_pct = None, below_market_pct = None,
                conversation = messages (negotiation s)\<rparr>)"

definition run_negotiation_test :: "llm \<Rightarrow> Product \<Rightarrow> int \<Rightarrow> int \<Rightarrow> error + outcome" where
  "run_negotiation_test call p buyer_budget seller_min =
     bind_err (negotiate call p buyer_budget seller_min) (report p buyer_budget)"


section \<open>The formulas of the specification\<close>

text \<open>
  The specification states each price as a formula with \<open>floor\<close>. The formulas are written
  here as the text has them, on the same float arithmetic, to be compared with the agents
  above (which use \<open>int(...)\<close>). The rounding of the buyer's raise is a parameter, so that the
  two roundings can be told apart.
\<close>

definition spec_opening_offer :: "int \<Rightarrow> int \<Rightarrow> error + int" where
  "spec_opening_offer base budget =
     bind_err (py_mul base lit_0_6) (\<lambda>f.
     bind_err (py_floor f) (\<lambda>i. Inr (min i budget)))"

definition spec_counter_offer ::
  "(pyfloat \<Rightarrow> error + int) \<Rightarrow> int \<Rightarrow> int \<Rightarrow> int \<Rightarrow> error + DealStatus \<times> int" where
  "spec_counter_offer rounding last_own_offer budget price =
     bind_err (py_mul last_own_offer lit_1_1) (\<lambda>f.
     bind_err (rounding f) (\<lambda>i.
       let candidate = min i budget
       in bind_err (py_mul price lit_0_95) (\<lambda>t.
            Inr (ONGOING, if int_gt_float candidate t then min (price - 1000) budget
                          else candidate))))"



text \<open>The seller's acceptance test, \<open>buyer_offer >= min_price * 1.1\<close>.\<close>

definition margin_met :: "int \<Rightarrow> int \<Rightarrow> error + bool" where
  "margin_met floor_price buyer_offer =
     bind_err (py_mul floor_price lit_1_1) (\<lambda>t. Inr (int_ge_float buyer_offer t))"


text \<open>The numeric part of what a strategy returns, without the text.\<close>

definition buyer_decision :: "error + DealStatus \<times> int \<times> message \<Rightarrow> error + DealStatus \<times> int" where
  "buyer_decision r = map_sum id (\<lambda>(status, price, text). (status, price)) r"

definition seller_decision :: "error + int \<times> message \<times> bool \<Rightarrow> error + int \<times> bool" where
  "seller_decision r = map_sum id (\<lambda>(price, text, accepted). (price, accepted)) r"

section \<open>Runs\<close>

text \<open>
  \<open>at_round call p budget seller_min n\<close> is \<open>Inr (Continue s)\<close> when the loop of a run gets
  to its pass with \<open>round = n\<close>, and \<open>s\<close> holds the locals at that point.
\<close>

definition at_round :: "llm \<Rightarrow> Product \<Rightarrow> int \<Rightarrow> int \<Rightarrow> nat \<Rightarrow> error + flow" where
  "at_round call p buyer_budget seller_min n =
     bind_err (initial_locals p buyer_budget)
       (for_rounds call (MockSellerAgent_init seller_min) [0..<n])"

text \<open>Whether the loop goes on after a pass, and the offer and the counter of round \<open>r\<close>.\<close>

fun continues :: "flow \<Rightarrow> bool" where
  "continues (Continue s) = True"
| "continues (Break s) = False"


text \<open>The literals of the program; those above one can only raise a price.\<close>

definition literals :: "float_literal set" where
  "literals = {lit_0_6, lit_0_85, lit_0_95, lit_1_05, lit_1_1, lit_1_15, lit_1_5}"


text \<open>
  Inputs for concrete runs: the first product of \<open>test_agent\<close>, a product with a small price,
  and a text producer that always answers with the empty string.
\<close>

definition alphonso :: Product where
  "alphonso = \<lparr>name = ''Alphonso Mangoes'', category = ''Mangoes'', quantity = 100,
                quality_grade = ''A'', origin = ''Ratnagiri'', base_market_price = 180000,
                attributes = [''ripeness'' \<mapsto> Text ''optimal'', ''export_grade'' \<mapsto> Flag True]\<rparr>"

definition crate :: Product where
  "crate = \<lparr>name = ''Crate'', category = ''Mangoes'', quantity = 1,
             quality_grade = ''B'', origin = ''Gujarat'', base_market_price = 1000,
             attributes = Map.empty\<rparr>"

definition silent :: llm where
  "silent request = []"

text \<open>
  The context with which the buyer is asked in round 4 of the run on \<open>crate\<close> with budget
  660 and seller floor 690 (the log of texts left empty): the offer of round 2 was the
  near-convergence adjustment \<open>690 - 1000\<close>.
\<close>

definition after_adjustment :: NegotiationContext where
  "after_adjustment = \<lparr>product = crate, your_budget = 660, current_round = 4,
                         seller_offers = [1500, 690, 690, 690],
                         your_offers = [600, - 310, - 341], messages = []\<rparr>"

text \<open>
  The locals after round 1 of the "easy" scenario of \<open>test_agent\<close> for the first product
  (budget 216000, seller floor 144000), and the locals with which a run on \<open>crate\<close> with
  budget 2000 starts.
\<close>

definition easy_round_1 :: locals where
  "easy_round_1 =
     \<lparr>negotiation = \<lparr>product = alphonso, your_budget = 216000, current_round = 1,
                      seller_offers = [270000, 144000], your_offers = [108000],
                      messages = [(Seller, OpeningPrice ''A'' ''Alphonso Mangoes'' 270000),
                                  (Buyer, OpeningOffer 108000), (Seller, Generated [])]\<rparr>,
      seller_price = 144000, seller_msg = Generated [], deal_made = False, final_price = None\<rparr>"


text \<open>
  The numbers in the locals: deal flag, final price, round, buyer offers, seller offers and
  the seller's current price.
\<close>

definition numbers :: "locals \<Rightarrow> bool \<times> int option \<times> int \<times> int list \<times> int list \<times> int" where
  "numbers s = (deal_made s, final_price s, current_round (negotiation s),
                your_offers (negotiation s), seller_offers (negotiation s), seller_price s)"

section \<open>Facts about the arithmetic\<close>

lemma ulp53_pos: "0 < ulp53 n"
proof (induction n rule: ulp53.induct)
  case (1 n)
  show ?case
  proof (cases "n < 2 ^ 53")
    case True
    then show ?thesis by (simp add: ulp53.simps)
  next
    case False
    with "1.IH" have "0 < ulp53 (n div 2)" by simp
    with False show ?thesis by (subst ulp53.simps) simp
  qed
qed

lemma ulp53_small: "n < 2 ^ 53 \<Longrightarrow> ulp53 n = 1"
  by (simp add: ulp53.simps)

lemma ulp53_large: "\<not> n < 2 ^ 53 \<Longrightarrow> ulp53 n = 2 * ulp53 (n div 2)"
  by (subst ulp53.simps) simp

lemma ulp53_upper: "n < 2 ^ 53 * ulp53 n"
proof (induction n rule: ulp53.induct)
  case (1 n)
  show ?case
  proof (cases "n < 2 ^ 53")
    case True
    then show ?thesis by (simp add: ulp53_small)
  next
    case False
    with "1.IH" have "n div 2 < 2 ^ 53 * ulp53 (n div 2)" by simp
    then have "n < 2 ^ 53 * (2 * ulp53 (n div 2))" by linarith
    with False show ?thesis by (simp add: ulp53_large)
  qed
qed

lemma ulp53_lower: "\<not> n < 2 ^ 53 \<Longrightarrow> 2 ^ 52 * ulp53 n \<le> n"
proof (induction n rule: ulp53.induct)
  case (1 n)
  from "1.prems" have u: "ulp53 n = 2 * ulp53 (n div 2)" by (rule ulp53_large)
  show ?case
  proof (cases "n div 2 < 2 ^ 53")
    case True
    then have "ulp53 (n div 2) = 1" by (rule ulp53_small)
    with u "1.prems" show ?thesis by simp
  next
    case False
    with "1.IH" "1.prems" have "2 ^ 52 * ulp53 (n div 2) \<le> n div 2" by simp
    then have "2 ^ 52 * (2 * ulp53 (n div 2)) \<le> n" by linarith
    with u show ?thesis by simp
  qed
qed

lemma round53_small: "0 \<le> n \<Longrightarrow> n < 2 ^ 53 \<Longrightarrow> round53 n = n"
  by (simp add: round53_def ulp53_small)

lemma round53_error: 
  assumes "0 \<le> n"
  shows "2 ^ 53 * (round53 n - n) \<le> n \<and> 2 ^ 53 * (n - round53 n) \<le> n"
proof (cases "n < 2 ^ 53")
  case True
  with assms show ?thesis by (simp add: round53_small)
next
  case False
  define u where "u = ulp53 n"
  define q where "q = n div u"
  define r where "r = n mod u"
  have u: "0 < u" "2 ^ 52 * u \<le> n"
    using ulp53_pos [of n] ulp53_lower [OF False] by (simp_all add: u_def)
  have n: "n = q * u + r" by (simp add: q_def r_def)
  have r: "0 \<le> r" "r < u" using u(1) by (simp_all add: r_def)
  have up: "(q + 1) * u = q * u + u" by (simp add: algebra_simps)
  have "round53 n = (if u < 2 * r \<or> (2 * r = u \<and> odd q) then q + 1 else q) * u"
    by (simp add: round53_def Let_def u_def q_def r_def)
  then show ?thesis using u n r up by (auto split: if_splits)
qed

lemma round53_above: "0 \<le> n \<Longrightarrow> 2 ^ 53 * (round53 n - n) \<le> n"
  using round53_error [of n] by simp

lemma round53_below: "0 \<le> n \<Longrightarrow> 2 ^ 53 * (n - round53 n) \<le> n"
  using round53_error [of n] by simp


lemma round53_nonneg: "0 \<le> n \<Longrightarrow> 0 \<le> round53 n"
  using round53_below [of n] by simp

lemma round53_upper: "0 \<le> n \<Longrightarrow> round53 n \<le> 2 * n"
  using round53_above [of n] by simp

lemma float_of_int_Inr:
  assumes "float_of_int x = Inr xf"
  shows "xf = sgn x * round53 \<bar>x\<bar>" and "round53 \<bar>x\<bar> < 2 ^ 1024"
  using assms by (simp_all add: float_of_int_def Let_def split: if_splits)

lemma float_of_int_abs:
  assumes "float_of_int x = Inr xf"
  shows "\<bar>xf\<bar> = round53 \<bar>x\<bar>" and "0 \<le> x \<Longrightarrow> 0 \<le> xf" and "x \<le> 0 \<Longrightarrow> xf \<le> 0"
proof -
  have xf: "xf = sgn x * round53 \<bar>x\<bar>" using assms by (rule float_of_int_Inr)
  have nn: "0 \<le> round53 \<bar>x\<bar>" by (simp add: round53_nonneg)
  have z: "round53 0 = 0" by (simp add: round53_small)
  from xf nn z show "\<bar>xf\<bar> = round53 \<bar>x\<bar>" by (cases "x = 0") (simp_all add: abs_mult)
  from xf nn show "0 \<le> x \<Longrightarrow> 0 \<le> xf" by (cases "x = 0") simp_all
  from xf nn show "x \<le> 0 \<Longrightarrow> xf \<le> 0" by (cases "x = 0") (simp_all add: mult_le_0_iff)
qed

lemma float_of_int_total: "\<bar>x\<bar> < 2 ^ 1023 \<Longrightarrow> \<exists>xf. float_of_int x = Inr xf"
  using round53_upper [of "\<bar>x\<bar>"] by (simp add: float_of_int_def Let_def)

lemma py_mul_Finite:
  assumes "py_mul x c = Inr (Finite m k)" and "0 \<le> fst c"
  shows "k = snd c"
    and "0 \<le> x \<Longrightarrow> 0 \<le> m"
    and "x \<le> 0 \<Longrightarrow> m \<le> 0"
    and "2 ^ 106 * \<bar>m\<bar> \<le> (2 ^ 53 + 1) * (2 ^ 53 + 1) * (\<bar>x\<bar> * fst c)"
    and "(2 ^ 53 - 1) * (2 ^ 53 - 1) * (\<bar>x\<bar> * fst c) \<le> 2 ^ 106 * \<bar>m\<bar>"
proof -
  from assms(1) obtain xf where xf: "float_of_int x = Inr xf"
    by (auto simp: py_mul_def bind_err_def split: sum.splits)
  define p where "p = round53 (\<bar>xf\<bar> * fst c)"
  from assms(1) xf have m: "m = sgn xf * p" and k: "k = snd c"
    by (auto simp: py_mul_def bind_err_def Let_def p_def split: if_splits)
  have a: "\<bar>xf\<bar> = round53 \<bar>x\<bar>" using xf by (rule float_of_int_abs)
  have prod_nn: "0 \<le> \<bar>xf\<bar> * fst c" using assms(2) by simp
  then have p_nn: "0 \<le> p" unfolding p_def by (rule round53_nonneg)
  have e1: "2 ^ 53 * (\<bar>xf\<bar> - \<bar>x\<bar>) \<le> \<bar>x\<bar>" "2 ^ 53 * (\<bar>x\<bar> - \<bar>xf\<bar>) \<le> \<bar>x\<bar>"
    using round53_above [of "\<bar>x\<bar>"] round53_below [of "\<bar>x\<bar>"] a by simp_all
  have e2: "2 ^ 53 * (p - \<bar>xf\<bar> * fst c) \<le> \<bar>xf\<bar> * fst c"
    "2 ^ 53 * (\<bar>xf\<bar> * fst c - p) \<le> \<bar>xf\<bar> * fst c"
    unfolding p_def using prod_nn by (rule round53_above, rule round53_below)
  have am: "\<bar>m\<bar> = (if xf = 0 then 0 else p)"
    using m p_nn by (simp add: abs_mult)
  have p0: "xf = 0 \<Longrightarrow> p = 0" by (simp add: p_def round53_small)
  from am p0 have absm: "\<bar>m\<bar> = p" by auto
  from e1 have u1: "2 ^ 53 * \<bar>xf\<bar> \<le> (2 ^ 53 + 1) * \<bar>x\<bar>" and l1: "(2 ^ 53 - 1) * \<bar>x\<bar> \<le> 2 ^ 53 * \<bar>xf\<bar>"
    by simp_all
  from u1 have u1c: "2 ^ 53 * \<bar>xf\<bar> * fst c \<le> (2 ^ 53 + 1) * \<bar>x\<bar> * fst c"
    using assms(2) by (rule mult_right_mono)
  from l1 have l1c: "(2 ^ 53 - 1) * \<bar>x\<bar> * fst c \<le> 2 ^ 53 * \<bar>xf\<bar> * fst c"
    using assms(2) by (rule mult_right_mono)
  show "k = snd c" by (rule k)
  show "0 \<le> x \<Longrightarrow> 0 \<le> m" using float_of_int_abs(2) [OF xf] m p_nn by (simp add: sgn_if)
  show "x \<le> 0 \<Longrightarrow> m \<le> 0" using float_of_int_abs(3) [OF xf] m p_nn p0
    by (auto simp: sgn_if)
  show "2 ^ 106 * \<bar>m\<bar> \<le> (2 ^ 53 + 1) * (2 ^ 53 + 1) * (\<bar>x\<bar> * fst c)"
    using e2 u1c absm by (simp add: algebra_simps)
  show "(2 ^ 53 - 1) * (2 ^ 53 - 1) * (\<bar>x\<bar> * fst c) \<le> 2 ^ 106 * \<bar>m\<bar>"
    using e2 l1c absm by (simp add: algebra_simps)
qed

lemma ulp53_unfold: "ulp53 n = (if n < 9007199254740992 then 1 else 2 * ulp53 (n div 2))"
  by (subst ulp53.simps) simp

lemma py_mul_small:
  assumes "\<bar>x\<bar> < 2 ^ 53" and "0 < M" and "M < 2 ^ 53"
  shows "py_mul x (M, K) = Inr (Finite (sgn x * round53 (\<bar>x\<bar> * M)) K)"
proof -
  have f: "float_of_int x = Inr x"
    using assms(1) by (simp add: float_of_int_def round53_small Let_def mult_sgn_abs)
  have "\<bar>x\<bar> * M \<le> 2 ^ 53 * 2 ^ 53"
    using assms by (intro mult_mono) simp_all
  moreover have "round53 (\<bar>x\<bar> * M) \<le> 2 * (\<bar>x\<bar> * M)"
    using assms(2) by (intro round53_upper) simp
  ultimately have "round53 (\<bar>x\<bar> * M) < 2 ^ 1024" by simp
  moreover have "(2::int) ^ 1024 * 1 \<le> 2 ^ 1024 * 2 ^ K" by (intro mult_left_mono) simp_all
  ultimately have "\<not> 2 ^ 1024 * 2 ^ K \<le> round53 (\<bar>x\<bar> * M)" by linarith
  then have "\<not> 2 ^ (1024 + K) \<le> round53 (\<bar>x\<bar> * M)" by (simp add: power_add)
  with f show ?thesis by (simp add: py_mul_def bind_err_def Let_def)
qed

lemmas lit_defs = lit_0_6_def lit_0_85_def lit_0_95_def lit_1_05_def lit_1_1_def lit_1_15_def lit_1_5_def

lemma py_mul_sign:
  assumes "py_mul x c = Inr (Finite m k)" and "c \<in> literals"
  shows "k = snd c" and "0 \<le> x \<Longrightarrow> 0 \<le> m" and "x \<le> 0 \<Longrightarrow> m \<le> 0"
proof -
  from assms(2) have c: "0 \<le> fst c" by (auto simp: literals_def lit_defs)
  show "k = snd c" and "0 \<le> x \<Longrightarrow> 0 \<le> m" and "x \<le> 0 \<Longrightarrow> m \<le> 0"
    using py_mul_Finite(1-3) [OF assms(1) c] by simp_all
qed

lemma py_mul_at_most_double:
  assumes "py_mul x c = Inr (Finite m k)" and "c \<in> literals"
  shows "\<bar>m\<bar> \<le> 2 * \<bar>x\<bar> * 2 ^ k"
proof -
  from assms(2) have c: "0 \<le> fst c" by (auto simp: literals_def lit_defs)
  have k: "k = snd c" using py_mul_Finite(1) [OF assms(1) c] .
  show ?thesis
    using py_mul_Finite(4) [OF assms(1) c] assms(2) unfolding k
    by (auto simp: literals_def lit_defs)
qed


lemma py_mul_total:
  assumes "\<bar>x\<bar> < 2 ^ 1000" and "c \<in> literals"
  shows "\<exists>m. py_mul x c = Inr (Finite m (snd c))"
proof -
  have "\<bar>x\<bar> < 2 ^ 1023" using assms(1) by simp
  then obtain xf where xf: "float_of_int x = Inr xf" using float_of_int_total by blast
  have a: "\<bar>xf\<bar> = round53 \<bar>x\<bar>" using xf by (rule float_of_int_abs)
  have "round53 \<bar>x\<bar> \<le> 2 * \<bar>x\<bar>" by (simp add: round53_upper)
  with a assms(1) have b: "\<bar>xf\<bar> < 2 ^ 1001" by simp
  define P :: int where "P = 2 ^ snd c"
  have P: "0 < P" by (simp add: P_def)
  from assms(2) have c: "0 \<le> fst c" "fst c \<le> 2 * P"
    by (auto simp: literals_def lit_defs P_def)
  have "\<bar>xf\<bar> * fst c \<le> 2 ^ 1001 * (2 * P)"
    using b c P by (intro mult_mono) simp_all
  moreover have "round53 (\<bar>xf\<bar> * fst c) \<le> 2 * (\<bar>xf\<bar> * fst c)"
    using c(1) by (intro round53_upper) simp
  ultimately have "\<not> 2 ^ 1024 * P \<le> round53 (\<bar>xf\<bar> * fst c)" using P by simp
  then have "\<not> 2 ^ (1024 + snd c) \<le> round53 (\<bar>xf\<bar> * fst c)"
    by (simp add: power_add P_def)
  with xf show ?thesis by (simp add: py_mul_def bind_err_def Let_def)
qed

lemma py_int_eq_floor:
  assumes "py_mul x c = Inr f" and "c \<in> literals" and "0 \<le> x"
  shows "py_int f = py_floor f"
proof (cases f)
  case (Finite m k)
  with assms have "0 \<le> m" using py_mul_sign(2) by blast
  with Finite show ?thesis by (simp add: sgn_if)
qed simp_all




lemma int_mul_total:
  assumes "\<bar>x\<bar> < 2 ^ 1000" and "c \<in> literals"
  shows "\<exists>f i. py_mul x c = Inr f \<and> py_int f = Inr i \<and> \<bar>i\<bar> \<le> 2 * \<bar>x\<bar>"
proof -
  from py_mul_total [OF assms] obtain m where m: "py_mul x c = Inr (Finite m (snd c))" by blast
  have "\<bar>m\<bar> \<le> 2 * \<bar>x\<bar> * 2 ^ snd c" using m assms(2) by (rule py_mul_at_most_double)
  then have "\<bar>m\<bar> div 2 ^ snd c \<le> 2 * \<bar>x\<bar> * 2 ^ snd c div 2 ^ snd c" by (intro zdiv_mono1) simp_all
  then have "\<bar>m\<bar> div 2 ^ snd c \<le> 2 * \<bar>x\<bar>" by simp
  moreover have "0 \<le> \<bar>m\<bar> div 2 ^ snd c" by (simp add: pos_imp_zdiv_nonneg_iff)
  moreover have "\<bar>sgn m * d\<bar> \<le> d" if "0 \<le> d" for d :: int
    using that by (simp add: abs_mult abs_sgn_eq)
  ultimately have "\<bar>sgn m * (\<bar>m\<bar> div 2 ^ snd c)\<bar> \<le> 2 * \<bar>x\<bar>" by (meson order_trans)
  with m show ?thesis by simp
qed

section \<open>Facts about the two strategies\<close>

lemma bind_err_Inr: "bind_err (Inr v) f = f v"
  by (simp add: bind_err_def)

lemma bind_err_Inl: "bind_err (Inl e) f = Inl e"
  by (simp add: bind_err_def)

lemma bind_err_weak_cong: "r = r' \<Longrightarrow> bind_err r f = bind_err r' f"
  by simp

lemma bind_err_eq_Inr: "bind_err r f = Inr y \<longleftrightarrow> (\<exists>v. r = Inr v \<and> f v = Inr y)"
  by (cases r) (simp_all add: bind_err_def)

text \<open>What the buyer decides, with the text taken out.\<close>

lemma buyer_decision_eq:
  "buyer_decision (respond_to_seller_offer call ctx price msg) =
     bind_err (buyer_accepts ctx price) (\<lambda>accept.
       if accept then Inr (ACCEPTED, price)
       else bind_err (py_last (your_offers ctx)) (\<lambda>last_offer.
              spec_counter_offer py_int last_offer (your_budget ctx) price))"
  by (simp add: buyer_decision_def respond_to_seller_offer_def spec_counter_offer_def
        bind_err_def Let_def split: sum.splits)

lemma seller_decision_eq:
  "seller_decision (respond_to_buyer_offer call self offer n msg) =
     bind_err (py_mul (min_price self) lit_1_1) (\<lambda>t.
       if int_ge_float offer t then Inr (offer, True)
       else bind_err (py_mul offer (if 8 \<le> n then lit_1_05 else lit_1_15)) (\<lambda>f.
            bind_err (py_int f) (\<lambda>i. Inr (max (min_price self) i, False))))"
  by (simp add: seller_decision_def respond_to_buyer_offer_def bind_err_def Let_def
        split: sum.splits)




section \<open>Evaluating concrete runs\<close>

text \<open>
  Rewrite rules that compute a run on numerals: a product of small numbers never overflows,
  and \<open>bind_err\<close> passes a result on before its continuation is looked at.
\<close>

lemmas strategy_defs = generate_opening_offer_def respond_to_seller_offer_def buyer_accepts_def
  get_opening_price_def respond_to_buyer_offer_def MockSellerAgent_init_def py_last_def

lemmas arith_eval = py_mul_small round53_def ulp53_unfold lit_defs bind_err_Inr bind_err_Inl Let_def

lemmas eval_congs = bind_err_weak_cong let_weak_cong sum.case_cong_weak flow.case_cong_weak
  prod.case_cong_weak

section \<open>The claims about a single decision\<close>

text \<open>
  C10. The numeric part of a decision does not depend on any text: two calls of the buyer
  strategy, or of the seller strategy, that differ in the text producer, in the message
  passed in and in the message log of the context return the same status and price, or the
  same price and acceptance flag (or raise the same exception).
\<close>

theorem decisions_ignore_text:
  "buyer_decision (respond_to_seller_offer call1 (ctx\<lparr>messages := log1\<rparr>) price msg1) =
   buyer_decision (respond_to_seller_offer call2 (ctx\<lparr>messages := log2\<rparr>) price msg2) \<and>
   seller_decision (respond_to_buyer_offer call1 self offer n msg1) =
   seller_decision (respond_to_buyer_offer call2 self offer n msg2)"
  by (simp add: buyer_decision_eq seller_decision_eq buyer_accepts_def cong: if_cong)



text \<open>
  C6 (amended). For a positive base market price the opening offer is
  \<open>min(floor(base_market_price * 0.6), budget)\<close>. On the counter-offer path (acceptance test
  failed, an own offer on record) the status is ONGOING and the offer is
  \<open>candidate = min(int(last_own_offer * 1.1), budget)\<close>, replaced by
  \<open>min(seller_price - 1000, budget)\<close> when \<open>candidate > seller_price * 0.95\<close>. Here \<open>int\<close>
  truncates towards zero; it agrees with \<open>floor\<close> whenever the last own offer is not
  negative.
\<close>

theorem buyer_offers:
  "(0 < base_market_price (product ctx) \<longrightarrow>
      map_sum id fst (generate_opening_offer ctx) =
      spec_opening_offer (base_market_price (product ctx)) (your_budget ctx)) \<and>
   (buyer_accepts ctx price = Inr False \<and> your_offers ctx \<noteq> [] \<longrightarrow>
      buyer_decision (respond_to_seller_offer call ctx price msg) =
      spec_counter_offer py_int (last (your_offers ctx)) (your_budget ctx) price \<and>
      (\<forall>status offer. buyer_decision (respond_to_seller_offer call ctx price msg) = Inr (status, offer)
         \<longrightarrow> status = ONGOING)) \<and>
   (0 \<le> last_own_offer \<longrightarrow>
      spec_counter_offer py_int last_own_offer budget price =
      spec_counter_offer py_floor last_own_offer budget price)"
proof (intro conjI impI)
  assume "0 < base_market_price (product ctx)"
  then have "py_int f = py_floor f" if "py_mul (base_market_price (product ctx)) lit_0_6 = Inr f" for f
    using that py_int_eq_floor [of "base_market_price (product ctx)" lit_0_6 f]
    by (simp add: literals_def)
  then show "map_sum id fst (generate_opening_offer ctx) =
      spec_opening_offer (base_market_price (product ctx)) (your_budget ctx)"
    by (cases "py_mul (base_market_price (product ctx)) lit_0_6")
       (auto simp: generate_opening_offer_def spec_opening_offer_def bind_err_def Let_def
             split: sum.splits)
next
  assume a: "buyer_accepts ctx price = Inr False \<and> your_offers ctx \<noteq> []"
  then show eq: "buyer_decision (respond_to_seller_offer call ctx price msg) =
      spec_counter_offer py_int (last (your_offers ctx)) (your_budget ctx) price"
    by (simp add: buyer_decision_eq bind_err_Inr py_last_def)
  show "\<forall>status offer. buyer_decision (respond_to_seller_offer call ctx price msg) = Inr (status, offer)
         \<longrightarrow> status = ONGOING"
    unfolding eq by (auto simp: spec_counter_offer_def bind_err_eq_Inr Let_def)
next
  assume "0 \<le> last_own_offer"
  then have "py_int f = py_floor f" if "py_mul last_own_offer lit_1_1 = Inr f" for f
    using that py_int_eq_floor [of last_own_offer lit_1_1 f] by (simp add: literals_def)
  then show "spec_counter_offer py_int last_own_offer budget price =
      spec_counter_offer py_floor last_own_offer budget price"
    by (cases "py_mul last_own_offer lit_1_1") (simp_all add: spec_counter_offer_def bind_err_def)
qed

lemma after_adjustment_fields:
  "your_offers after_adjustment = [600, - 310, - 341]" "your_budget after_adjustment = 660"
  "base_market_price (product after_adjustment) = 1000"
  by (simp_all add: after_adjustment_def crate_def)

lemma after_adjustment_refuses: "buyer_accepts after_adjustment 690 = Inr False"
  by (simp add: buyer_accepts_def after_adjustment_fields)

lemma after_adjustment_int: "spec_counter_offer py_int (- 341) 660 690 = Inr (ONGOING, - 375)"
  by (simp add: spec_counter_offer_def arith_eval cong: eval_congs)

lemma after_adjustment_floor: "spec_counter_offer py_floor (- 341) 660 690 = Inr (ONGOING, - 376)"
  by (simp add: spec_counter_offer_def arith_eval cong: eval_congs)

theorem buyer_offers_witness:
  "0 < base_market_price (product after_adjustment) \<and>
   map_sum id fst (generate_opening_offer after_adjustment) = Inr 600 \<and>
   buyer_accepts after_adjustment 690 = Inr False \<and> your_offers after_adjustment \<noteq> [] \<and>
   buyer_decision (respond_to_seller_offer silent after_adjustment 690 (Generated [])) =
     Inr (ONGOING, - 375) \<and>
   (0::int) \<le> 600 \<and>
   spec_counter_offer py_int 600 660 690 = spec_counter_offer py_floor 600 660 690"
proof -
  have o: "spec_opening_offer 1000 660 = Inr 600"
    by (simp add: spec_opening_offer_def arith_eval cong: eval_congs)
  show ?thesis
    using buyer_offers [where ctx = after_adjustment and price = 690 and call = silent
          and msg = "Generated []" and last_own_offer = 600 and budget = 660]
      after_adjustment_refuses after_adjustment_int o
    by (simp add: after_adjustment_fields)
qed

text \<open>
  C6 as stated fails with \<open>floor\<close>: in that context the code offers \<open>int(-341 * 1.1) = -375\<close>,
  the formula of the claim gives \<open>floor(-375.1) = -376\<close>.
\<close>

theorem buyer_floor_counterexample:
  "0 < your_budget after_adjustment \<and> 0 < base_market_price (product after_adjustment) \<and>
   buyer_accepts after_adjustment 690 = Inr False \<and>
   last (your_offers after_adjustment) = - 341 \<and>
   buyer_decision (respond_to_seller_offer silent after_adjustment 690 (Generated [])) =
     Inr (ONGOING, - 375) \<and>
   spec_counter_offer py_floor (- 341) (your_budget after_adjustment) 690 = Inr (ONGOING, - 376)"
  using after_adjustment_refuses after_adjustment_int after_adjustment_floor
  by (simp add: buyer_decision_eq after_adjustment_fields py_last_def bind_err_Inr)

section \<open>Facts about the round loop\<close>

lemma for_rounds_append:
  "for_rounds call seller (xs @ ys) s =
     (case for_rounds call seller xs s of
        Inl e \<Rightarrow> Inl e
      | Inr (Break s') \<Rightarrow> Inr (Break s')
      | Inr (Continue s') \<Rightarrow> for_rounds call seller ys s')"
  by (induction xs arbitrary: s) (auto split: sum.splits flow.splits)

lemma for_rounds_single: "for_rounds call seller [n] s = round_body call seller n s"
  by (auto split: sum.splits flow.splits)

lemma at_round_0:
  "at_round call p b m 0 = bind_err (initial_locals p b) (\<lambda>s. Inr (Continue s))"
  by (cases "initial_locals p b") (simp_all add: at_round_def bind_err_def)

lemma at_round_Suc:
  "at_round call p b m (Suc n) =
     (case at_round call p b m n of
        Inl e \<Rightarrow> Inl e
      | Inr (Break s) \<Rightarrow> Inr (Break s)
      | Inr (Continue s) \<Rightarrow> round_body call (MockSellerAgent_init m) n s)"
  by (cases "initial_locals p b")
     (auto simp: at_round_def bind_err_def for_rounds_append split: sum.splits flow.splits)

lemma negotiate_at_round: "negotiate call p b m = map_sum id after (at_round call p b m 10)"
  by (cases "initial_locals p b")
     (auto simp: negotiate_def at_round_def bind_err_def split: sum.splits)

text \<open>The three ways in which a pass through the loop body ends without an exception.\<close>

lemma round_body_cases:
  assumes "round_body call seller n s = Inr fl"
  obtains
    (buyer_accepted) offer words where
      "buyer_turn call n ((negotiation s)\<lparr>current_round := int n + 1\<rparr>) (seller_price s) (seller_msg s)
         = Inr (ACCEPTED, offer, words)"
      "fl = Break (s\<lparr>negotiation := (negotiation s)\<lparr>current_round := int n + 1,
                       your_offers := your_offers (negotiation s) @ [offer],
                       messages := messages (negotiation s) @ [(Buyer, words)]\<rparr>,
                     deal_made := True, final_price := Some (seller_price s)\<rparr>)"
  | (seller_accepted) status offer words price msg where
      "buyer_turn call n ((negotiation s)\<lparr>current_round := int n + 1\<rparr>) (seller_price s) (seller_msg s)
         = Inr (status, offer, words)"
      "status \<noteq> ACCEPTED"
      "respond_to_buyer_offer call seller offer (int n) words = Inr (price, msg, True)"
      "fl = Break (s\<lparr>negotiation := (negotiation s)\<lparr>current_round := int n + 1,
                       your_offers := your_offers (negotiation s) @ [offer],
                       messages := messages (negotiation s) @ [(Buyer, words), (Seller, msg)]\<rparr>,
                     seller_price := price, seller_msg := msg,
                     deal_made := True, final_price := Some offer\<rparr>)"
  | (countered) status offer words price msg where
      "buyer_turn call n ((negotiation s)\<lparr>current_round := int n + 1\<rparr>) (seller_price s) (seller_msg s)
         = Inr (status, offer, words)"
      "status \<noteq> ACCEPTED"
      "respond_to_buyer_offer call seller offer (int n) words = Inr (price, msg, False)"
      "fl = Continue (s\<lparr>negotiation := (negotiation s)\<lparr>current_round := int n + 1,
                          your_offers := your_offers (negotiation s) @ [offer],
                          seller_offers := seller_offers (negotiation s) @ [price],
                          messages := messages (negotiation s) @ [(Buyer, words), (Seller, msg)]\<rparr>,
                        seller_price := price, seller_msg := msg\<rparr>)"
proof -
  from assms obtain status offer words where
    b: "buyer_turn call n ((negotiation s)\<lparr>current_round := int n + 1\<rparr>) (seller_price s) (seller_msg s)
         = Inr (status, offer, words)"
    by (auto simp: round_body_def Let_def bind_err_eq_Inr)
  show thesis
  proof (cases "status = ACCEPTED")
    case True
    with assms b show thesis
      by (intro buyer_accepted [of offer words]) (auto simp: round_body_def Let_def bind_err_Inr)
  next
    case False
    with assms b obtain price msg acc where
      r: "respond_to_buyer_offer call seller offer (int n) words = Inr (price, msg, acc)"
      by (auto simp: round_body_def Let_def bind_err_Inr bind_err_eq_Inr)
    show thesis
    proof (cases acc)
      case True
      with assms b r False show thesis
        by (intro seller_accepted [of status offer words price msg])
           (auto simp: round_body_def Let_def bind_err_Inr)
    next
      case acc: False
      with assms b r False show thesis
        by (intro countered [of status offer words price msg])
           (auto simp: round_body_def Let_def bind_err_Inr)
    qed
  qed
qed

lemma initial_locals_fields:
  assumes "initial_locals p b = Inr s"
  shows "product (negotiation s) = p" and "your_budget (negotiation s) = b"
    and "current_round (negotiation s) = 0" and "your_offers (negotiation s) = []"
    and "seller_offers (negotiation s) = [seller_price s]"
    and "\<not> deal_made s" and "final_price s = None"
    and "map_sum id fst (get_opening_price p) = Inr (seller_price s)"
  using assms by (auto simp: initial_locals_def bind_err_eq_Inr)


lemma round_body_Continue:
  assumes "round_body call seller n s = Inr (Continue s')"
  shows "product (negotiation s') = product (negotiation s)"
    and "your_budget (negotiation s') = your_budget (negotiation s)"
    and "current_round (negotiation s') = int n + 1"
    and "length (your_offers (negotiation s')) = Suc (length (your_offers (negotiation s)))"
    and "length (seller_offers (negotiation s')) = Suc (length (seller_offers (negotiation s)))"
    and "seller_price s' = last (seller_offers (negotiation s'))"
    and "deal_made s' = deal_made s" and "final_price s' = final_price s"
  using assms by (cases rule: round_body_cases; simp)+

lemma round_body_Break:
  assumes "round_body call seller n s = Inr (Break s')"
  shows "product (negotiation s') = product (negotiation s)"
    and "your_budget (negotiation s') = your_budget (negotiation s)"
    and "current_round (negotiation s') = int n + 1"
    and "length (your_offers (negotiation s')) = Suc (length (your_offers (negotiation s)))"
    and "deal_made s'" and "final_price s' \<noteq> None"
  using assms by (cases rule: round_body_cases; simp)+

text \<open>What holds of the locals whenever the loop starts a pass.\<close>

lemma at_round_Continue_all:
  "at_round call p b m n = Inr (Continue s) \<Longrightarrow>
     product (negotiation s) = p \<and> your_budget (negotiation s) = b \<and>
     current_round (negotiation s) = int n \<and>
     length (your_offers (negotiation s)) = n \<and>
     length (seller_offers (negotiation s)) = Suc n \<and>
     seller_price s = last (seller_offers (negotiation s)) \<and>
     \<not> deal_made s \<and> final_price s = None"
proof (induction n arbitrary: s)
  case 0
  then obtain s0 where "initial_locals p b = Inr s0" "s = s0"
    by (auto simp: at_round_0 bind_err_eq_Inr)
  then show ?case using initial_locals_fields [of p b s] by simp
next
  case (Suc n)
  from Suc.prems obtain s0 where s0: "at_round call p b m n = Inr (Continue s0)"
    and body: "round_body call (MockSellerAgent_init m) n s0 = Inr (Continue s)"
    by (auto simp: at_round_Suc split: sum.splits flow.splits)
  show ?case
    using Suc.IH [OF s0] round_body_Continue [OF body] by simp
qed

lemma at_round_Continue:
  assumes "at_round call p b m n = Inr (Continue s)"
  shows "product (negotiation s) = p" and "your_budget (negotiation s) = b"
    and "current_round (negotiation s) = int n"
    and "length (your_offers (negotiation s)) = n"
    and "length (seller_offers (negotiation s)) = Suc n"
    and "seller_price s = last (seller_offers (negotiation s))"
    and "\<not> deal_made s" and "final_price s = None"
  using at_round_Continue_all [OF assms] by simp_all

lemma at_round_Break:
  "at_round call p b m n = Inr (Break s) \<Longrightarrow>
     \<exists>k s0. k < n \<and> at_round call p b m k = Inr (Continue s0) \<and>
            round_body call (MockSellerAgent_init m) k s0 = Inr (Break s)"
proof (induction n)
  case 0
  then show ?case by (auto simp: at_round_0 bind_err_eq_Inr)
next
  case (Suc n)
  show ?case
  proof (cases "at_round call p b m n")
    case (Inl e)
    with Suc.prems show ?thesis by (simp add: at_round_Suc)
  next
    case (Inr fl)
    show ?thesis
    proof (cases fl)
      case (Continue s0)
      with Inr Suc.prems show ?thesis by (auto simp: at_round_Suc)
    next
      case (Break s')
      with Inr Suc.prems have "at_round call p b m n = Inr (Break s)" by (simp add: at_round_Suc)
      from Suc.IH [OF this] show ?thesis using less_Suc_eq by blast
    qed
  qed
qed

lemma at_round_stays_broken:
  "at_round call p b m n = Inr (Break s) \<Longrightarrow> n \<le> k \<Longrightarrow> at_round call p b m k = Inr (Break s)"
proof (induction k)
  case 0
  then show ?case by simp
next
  case (Suc k)
  then show ?case by (cases "n = Suc k") (auto simp: at_round_Suc)
qed

lemma negotiate_Break:
  assumes "at_round call p b m n = Inr (Continue s0)" and "n < 10"
    and "round_body call (MockSellerAgent_init m) n s0 = Inr (Break s)"
  shows "negotiate call p b m = Inr s"
proof -
  have "at_round call p b m (Suc n) = Inr (Break s)" using assms by (simp add: at_round_Suc)
  moreover have "Suc n \<le> 10" using assms(2) by simp
  ultimately have "at_round call p b m 10 = Inr (Break s)" by (rule at_round_stays_broken)
  then show ?thesis by (simp add: negotiate_at_round)
qed

text \<open>What holds of the locals when the function reaches its \<open>return\<close>.\<close>

lemma negotiate_result:
  assumes "negotiate call p b m = Inr s"
  shows "product (negotiation s) = p" and "your_budget (negotiation s) = b"
    and "1 \<le> current_round (negotiation s)" and "current_round (negotiation s) \<le> 10"
    and "int (length (your_offers (negotiation s))) = current_round (negotiation s)"
    and "\<not> deal_made s \<Longrightarrow> final_price s = None \<and> current_round (negotiation s) = 10"
    and "deal_made s \<Longrightarrow> final_price s \<noteq> None"
proof -
  from assms obtain fl where fl: "at_round call p b m 10 = Inr fl" "s = after fl"
    by (cases "at_round call p b m 10") (simp_all add: negotiate_at_round)
  have "product (negotiation s) = p \<and> your_budget (negotiation s) = b \<and>
        1 \<le> current_round (negotiation s) \<and> current_round (negotiation s) \<le> 10 \<and>
        int (length (your_offers (negotiation s))) = current_round (negotiation s) \<and>
        (\<not> deal_made s \<longrightarrow> final_price s = None \<and> current_round (negotiation s) = 10) \<and>
        (deal_made s \<longrightarrow> final_price s \<noteq> None)"
  proof (cases fl)
    case (Continue s')
    with fl show ?thesis using at_round_Continue [of call p b m 10 s] by simp
  next
    case (Break s')
    with fl have "at_round call p b m 10 = Inr (Break s)" by simp
    then obtain k s0 where k: "k < 10" "at_round call p b m k = Inr (Continue s0)"
      "round_body call (MockSellerAgent_init m) k s0 = Inr (Break s)"
      using at_round_Break by blast
    show ?thesis
      using at_round_Continue [OF k(2)] round_body_Break [OF k(3)] k(1) by simp
  qed
  then show "product (negotiation s) = p" and "your_budget (negotiation s) = b"
    and "1 \<le> current_round (negotiation s)" and "current_round (negotiation s) \<le> 10"
    and "int (length (your_offers (negotiation s))) = current_round (negotiation s)"
    and "\<not> deal_made s \<Longrightarrow> final_price s = None \<and> current_round (negotiation s) = 10"
    and "deal_made s \<Longrightarrow> final_price s \<noteq> None"
    by simp_all
qed

section \<open>The two acceptance rules\<close>

lemma buyer_accepts_True:
  "buyer_accepts ctx price = Inr True \<longleftrightarrow>
     price < your_budget ctx \<and>
     (\<exists>t. py_mul (base_market_price (product ctx)) lit_0_85 = Inr t \<and> int_lt_float price t)"
  by (auto simp: buyer_accepts_def bind_err_eq_Inr)

lemma respond_to_seller_offer_status:
  assumes "respond_to_seller_offer call ctx price msg = Inr (status, offer, words)"
  shows "status = ACCEPTED \<longleftrightarrow> buyer_accepts ctx price = Inr True"
    and "status = ACCEPTED \<Longrightarrow> offer = price"
    and "status = ACCEPTED \<or> status = ONGOING"
proof -
  have d: "buyer_decision (respond_to_seller_offer call ctx price msg) = Inr (status, offer)"
    using assms by (simp add: buyer_decision_def)
  then obtain accept where a: "buyer_accepts ctx price = Inr accept"
    by (auto simp: buyer_decision_eq bind_err_eq_Inr)
  have "(status = ACCEPTED \<longleftrightarrow> accept) \<and> (status = ACCEPTED \<longrightarrow> offer = price) \<and>
        (status = ACCEPTED \<or> status = ONGOING)"
    using d a
    by (cases accept)
       (auto simp: buyer_decision_eq bind_err_Inr bind_err_eq_Inr spec_counter_offer_def Let_def)
  with a show "status = ACCEPTED \<longleftrightarrow> buyer_accepts ctx price = Inr True"
    and "status = ACCEPTED \<Longrightarrow> offer = price"
    and "status = ACCEPTED \<or> status = ONGOING"
    by auto
qed

lemma respond_to_buyer_offer_accepts:
  assumes "respond_to_buyer_offer call self offer n msg = Inr (price, words, accepts)"
  shows "accepts \<longleftrightarrow> margin_met (min_price self) offer = Inr True"
    and "accepts \<Longrightarrow> price = offer"
    and "\<not> accepts \<Longrightarrow> min_price self \<le> price"
proof -
  have d: "seller_decision (respond_to_buyer_offer call self offer n msg) = Inr (price, accepts)"
    using assms by (simp add: seller_decision_def)
  then obtain t where t: "py_mul (min_price self) lit_1_1 = Inr t"
    by (auto simp: seller_decision_eq bind_err_eq_Inr)
  have "(accepts \<longleftrightarrow> int_ge_float offer t) \<and> (accepts \<longrightarrow> price = offer) \<and>
        (\<not> accepts \<longrightarrow> min_price self \<le> price)"
    using d t by (auto simp: seller_decision_eq bind_err_Inr bind_err_eq_Inr split: if_splits)
  with t show "accepts \<longleftrightarrow> margin_met (min_price self) offer = Inr True"
    and "accepts \<Longrightarrow> price = offer" and "\<not> accepts \<Longrightarrow> min_price self \<le> price"
    by (auto simp: margin_met_def bind_err_Inr)
qed

lemma round_body_buyer_accepts:
  assumes "buyer_turn call n ((negotiation s)\<lparr>current_round := int n + 1\<rparr>) (seller_price s)
             (seller_msg s) = Inr (ACCEPTED, offer, words)"
  shows "\<exists>s'. round_body call seller n s = Inr (Break s') \<and> deal_made s' \<and>
              final_price s' = Some (seller_price s) \<and>
              current_round (negotiation s') = int n + 1 \<and>
              last (your_offers (negotiation s')) = offer"
  using assms by (simp add: round_body_def Let_def bind_err_Inr)


lemma report_deal:
  assumes "report p b s = Inr out" and "deal_made s"
  shows "out_deal_made out" and "out_final_price out = final_price s"
    and "rounds out = current_round (negotiation s)"
  using assms by (auto simp: report_def bind_err_eq_Inr split: option.splits)

lemma run_negotiation_test_Inr:
  "run_negotiation_test call p b m = Inr out \<longleftrightarrow>
     (\<exists>s. negotiate call p b m = Inr s \<and> report p b s = Inr out)"
  by (simp add: run_negotiation_test_def bind_err_eq_Inr)

text \<open>
  C1. In a run with budget \<open>b\<close> and product \<open>p\<close>, let the loop reach round \<open>n + 1 >= 2\<close> and
  the buyer's counter-offer path return there. It returns ACCEPTED exactly if the seller's
  current price is below \<open>b\<close> and below \<open>base_market_price * 0.85\<close>; that price is the last
  one the seller quoted; and on ACCEPTED the buyer returns that price, the function leaves
  the loop in this round with \<open>deal_made = True\<close> and \<open>final_price\<close> the seller's price, and
  any report returned says the same.
\<close>

theorem buyer_acceptance:
  assumes "at_round call p b m n = Inr (Continue s)" and "1 \<le> n" and "n < 10"
    and "respond_to_seller_offer call ((negotiation s)\<lparr>current_round := int n + 1\<rparr>)
           (seller_price s) (seller_msg s) = Inr (status, offer, words)"
  shows "(status = ACCEPTED \<longleftrightarrow>
            seller_price s < b \<and>
            (\<exists>t. py_mul (base_market_price p) lit_0_85 = Inr t \<and> int_lt_float (seller_price s) t)) \<and>
         seller_price s = last (seller_offers (negotiation s)) \<and>
         (status = ACCEPTED \<longrightarrow>
            offer = seller_price s \<and>
            (\<exists>s'. negotiate call p b m = Inr s' \<and> deal_made s' \<and>
                  final_price s' = Some (seller_price s) \<and>
                  current_round (negotiation s') = int n + 1) \<and>
            (\<forall>out. run_negotiation_test call p b m = Inr out \<longrightarrow>
                  out_deal_made out \<and> out_final_price out = Some (seller_price s) \<and>
                  rounds out = int n + 1))"
proof (intro conjI impI)
  note inv = at_round_Continue [OF assms(1)]
  note st = respond_to_seller_offer_status [OF assms(4)]
  show "status = ACCEPTED \<longleftrightarrow>
          seller_price s < b \<and>
          (\<exists>t. py_mul (base_market_price p) lit_0_85 = Inr t \<and> int_lt_float (seller_price s) t)"
    using st(1) inv(1,2) by (simp add: buyer_accepts_True)
  show "seller_price s = last (seller_offers (negotiation s))" by (rule inv(6))
  assume acc: "status = ACCEPTED"
  show "offer = seller_price s" using st(2) acc by simp
  have "buyer_turn call n ((negotiation s)\<lparr>current_round := int n + 1\<rparr>) (seller_price s)
          (seller_msg s) = Inr (ACCEPTED, offer, words)"
    using assms(2,4) acc by (simp add: buyer_turn_def)
  from round_body_buyer_accepts [OF this, of "MockSellerAgent_init m"]
  obtain s' where s': "round_body call (MockSellerAgent_init m) n s = Inr (Break s')"
    "deal_made s'" "final_price s' = Some (seller_price s)"
    "current_round (negotiation s') = int n + 1"
    by blast
  have neg: "negotiate call p b m = Inr s'" using assms(1,3) s'(1) by (rule negotiate_Break)
  with s' show "\<exists>s'. negotiate call p b m = Inr s' \<and> deal_made s' \<and>
      final_price s' = Some (seller_price s) \<and> current_round (negotiation s') = int n + 1"
    by blast
  show "\<forall>out. run_negotiation_test call p b m = Inr out \<longrightarrow>
      out_deal_made out \<and> out_final_price out = Some (seller_price s) \<and> rounds out = int n + 1"
    using neg s'(2,3,4) report_deal [of p b s'] by (auto simp: run_negotiation_test_Inr)
qed

lemma easy_reaches_round_2:
  "at_round silent alphonso 216000 144000 1 = Inr (Continue easy_round_1)"
  by (simp add: at_round_def initial_locals_def round_body_def buyer_turn_def strategy_defs
        arith_eval alphonso_def easy_round_1_def silent_def cong: eval_congs)

lemma easy_round_2_accepted:
  "respond_to_seller_offer silent ((negotiation easy_round_1)\<lparr>current_round := int 1 + 1\<rparr>)
     (seller_price easy_round_1) (seller_msg easy_round_1) = Inr (ACCEPTED, 144000, Generated [])"
  by (simp add: strategy_defs arith_eval alphonso_def easy_round_1_def silent_def cong: eval_congs)

theorem buyer_acceptance_witness:
  "at_round silent alphonso 216000 144000 1 = Inr (Continue easy_round_1) \<and>
   respond_to_seller_offer silent ((negotiation easy_round_1)\<lparr>current_round := int 1 + 1\<rparr>)
     (seller_price easy_round_1) (seller_msg easy_round_1) = Inr (ACCEPTED, 144000, Generated []) \<and>
   seller_price easy_round_1 = 144000 \<and> seller_price easy_round_1 < 216000 \<and>
   last (seller_offers (negotiation easy_round_1)) = 144000 \<and>
   (\<exists>s'. negotiate silent alphonso 216000 144000 = Inr s' \<and> deal_made s' \<and>
         final_price s' = Some 144000 \<and> current_round (negotiation s') = 2)"
proof -
  have p: "seller_price easy_round_1 = 144000" by (simp add: easy_round_1_def)
  show ?thesis
    using buyer_acceptance [OF easy_reaches_round_2 _ _ easy_round_2_accepted]
      easy_reaches_round_2 easy_round_2_accepted
    by (simp add: p)
qed






section \<open>Runs on inputs of ordinary size raise nothing\<close>

lemma generate_opening_offer_total:
  assumes "\<bar>base_market_price (product ctx)\<bar> \<le> B" and "\<bar>your_budget ctx\<bar> \<le> B" and "B < 2 ^ 1000"
  shows "\<exists>offer words. generate_opening_offer ctx = Inr (offer, words) \<and> \<bar>offer\<bar> \<le> 2 * B"
proof -
  have "lit_0_6 \<in> literals" by (simp add: literals_def)
  moreover have "\<bar>base_market_price (product ctx)\<bar> < 2 ^ 1000" using assms(1,3) by linarith
  ultimately obtain f i where
    f: "py_mul (base_market_price (product ctx)) lit_0_6 = Inr f" "py_int f = Inr i"
      "\<bar>i\<bar> \<le> 2 * \<bar>base_market_price (product ctx)\<bar>"
    using int_mul_total by blast
  have "\<bar>min i (your_budget ctx)\<bar> \<le> 2 * B"
    using f(3) assms(1,2) by linarith
  with f(1,2) show ?thesis by (simp add: generate_opening_offer_def bind_err_Inr Let_def)
qed

lemma buyer_accepts_total:
  assumes "\<bar>base_market_price (product ctx)\<bar> < 2 ^ 1000"
  shows "\<exists>accept. buyer_accepts ctx price = Inr accept"
proof -
  have "lit_0_85 \<in> literals" by (simp add: literals_def)
  from py_mul_total [OF assms this] show ?thesis
    by (auto simp: buyer_accepts_def bind_err_Inr)
qed

lemma spec_counter_offer_total:
  assumes "\<bar>last_offer\<bar> \<le> B" and "\<bar>price\<bar> \<le> B" and "\<bar>budget\<bar> \<le> B" and "1000 \<le> B"
    and "B < 2 ^ 1000"
  shows "\<exists>offer. spec_counter_offer py_int last_offer budget price = Inr (ONGOING, offer) \<and>
           \<bar>offer\<bar> \<le> 2 * B"
proof -
  have l: "lit_1_1 \<in> literals" "lit_0_95 \<in> literals" by (simp_all add: literals_def)
  have s: "\<bar>last_offer\<bar> < 2 ^ 1000" "\<bar>price\<bar> < 2 ^ 1000" using assms(1,2,5) by linarith+
  from int_mul_total [OF s(1) l(1)] obtain f i where
    f: "py_mul last_offer lit_1_1 = Inr f" "py_int f = Inr i" "\<bar>i\<bar> \<le> 2 * \<bar>last_offer\<bar>"
    by blast
  from py_mul_total [OF s(2) l(2)] obtain t where t: "py_mul price lit_0_95 = Inr t"
    by blast
  have a: "\<bar>min i budget\<bar> \<le> 2 * B" using f(3) assms(1,3) by linarith
  have b: "\<bar>min (price - 1000) budget\<bar> \<le> 2 * B" using assms(2,3,4) by linarith
  show ?thesis
    using f(1,2) t a b by (simp add: spec_counter_offer_def bind_err_Inr Let_def)
qed

lemma respond_to_seller_offer_total:
  assumes "\<bar>base_market_price (product ctx)\<bar> \<le> B" and "\<bar>price\<bar> \<le> B"
    and "\<bar>your_budget ctx\<bar> \<le> B" and "your_offers ctx \<noteq> []"
    and "\<bar>last (your_offers ctx)\<bar> \<le> B" and "1000 \<le> B" and "B < 2 ^ 1000"
  shows "\<exists>status offer words. respond_to_seller_offer call ctx price msg = Inr (status, offer, words) \<and>
           \<bar>offer\<bar> \<le> 2 * B"
proof -
  have "\<bar>base_market_price (product ctx)\<bar> < 2 ^ 1000" using assms(1,7) by linarith
  from buyer_accepts_total [OF this] obtain accept where
    a: "buyer_accepts ctx price = Inr accept" by blast
  from spec_counter_offer_total [OF assms(5,2,3,6,7)] obtain offer where
    o: "spec_counter_offer py_int (last (your_offers ctx)) (your_budget ctx) price = Inr (ONGOING, offer)"
      "\<bar>offer\<bar> \<le> 2 * B"
    by blast
  have d: "buyer_decision (respond_to_seller_offer call ctx price msg) =
           Inr (if accept then (ACCEPTED, price) else (ONGOING, offer))"
    using a o(1) assms(4) by (simp add: buyer_decision_eq bind_err_Inr py_last_def)
  then obtain status offer' words where
    r: "respond_to_seller_offer call ctx price msg = Inr (status, offer', words)"
    by (cases "respond_to_seller_offer call ctx price msg") (auto simp: buyer_decision_def)
  with d have "offer' = (if accept then price else offer)"
    by (auto simp: buyer_decision_def split: if_splits)
  with o(2) assms(2,6) have "\<bar>offer'\<bar> \<le> 2 * B"
    by (cases accept) simp_all
  with r show ?thesis by blast
qed

lemma respond_to_buyer_offer_total:
  assumes "\<bar>min_price self\<bar> \<le> B" and "\<bar>offer\<bar> \<le> 2 * B" and "2 * B < 2 ^ 1000"
  shows "\<exists>price msg accepts. respond_to_buyer_offer call self offer n words = Inr (price, msg, accepts) \<and>
           \<bar>price\<bar> \<le> 4 * B"
proof -
  define c where "c = (if 8 \<le> n then lit_1_05 else lit_1_15)"
  have l: "lit_1_1 \<in> literals" "c \<in> literals" by (simp_all add: literals_def c_def)
  have s: "\<bar>min_price self\<bar> < 2 ^ 1000" "\<bar>offer\<bar> < 2 ^ 1000" using assms by linarith+
  from py_mul_total [OF s(1) l(1)] obtain t where t: "py_mul (min_price self) lit_1_1 = Inr t"
    by blast
  from int_mul_total [OF s(2) l(2)] obtain f i where
    f: "py_mul offer c = Inr f" "py_int f = Inr i" "\<bar>i\<bar> \<le> 2 * \<bar>offer\<bar>"
    by blast
  have "\<bar>max (min_price self) i\<bar> \<le> 4 * B" using f(3) assms(1,2) by linarith
  moreover have "\<bar>offer\<bar> \<le> 4 * B" using assms(2) by linarith
  ultimately show ?thesis
    using t f(1,2) unfolding c_def
    by (auto simp: respond_to_buyer_offer_def bind_err_Inr Let_def)
qed

lemma round_body_total:
  assumes "\<bar>base_market_price (product (negotiation s))\<bar> \<le> B"
    and "\<bar>your_budget (negotiation s)\<bar> \<le> B" and "\<bar>min_price seller\<bar> \<le> B"
    and "\<bar>seller_price s\<bar> \<le> B"
    and "n = 0 \<or> your_offers (negotiation s) \<noteq> [] \<and> \<bar>last (your_offers (negotiation s))\<bar> \<le> B"
    and "1000 \<le> B" and "2 * B < 2 ^ 1000"
  shows "\<exists>fl. round_body call seller n s = Inr fl \<and> \<bar>seller_price (after fl)\<bar> \<le> 4 * B \<and>
           your_offers (negotiation (after fl)) \<noteq> [] \<and>
           \<bar>last (your_offers (negotiation (after fl)))\<bar> \<le> 4 * B"
proof -
  define ctx where "ctx = (negotiation s)\<lparr>current_round := int n + 1\<rparr>"
  have B: "B < 2 ^ 1000" using assms(6,7) by linarith
  have "\<exists>status offer words. buyer_turn call n ctx (seller_price s) (seller_msg s) =
          Inr (status, offer, words) \<and> \<bar>offer\<bar> \<le> 2 * B"
  proof (cases "n = 0")
    case True
    from generate_opening_offer_total [of ctx B] assms(1,2) B
    obtain offer words where "generate_opening_offer ctx = Inr (offer, words)" "\<bar>offer\<bar> \<le> 2 * B"
      by (auto simp: ctx_def)
    with True show ?thesis by (simp add: buyer_turn_def bind_err_Inr)
  next
    case False
    with assms(5) have "your_offers ctx \<noteq> []" "\<bar>last (your_offers ctx)\<bar> \<le> B"
      by (simp_all add: ctx_def)
    from respond_to_seller_offer_total [of ctx B "seller_price s", OF _ assms(4) _ this assms(6) B]
      assms(1,2) False
    show ?thesis by (simp add: buyer_turn_def ctx_def)
  qed
  then obtain status offer words where
    b: "buyer_turn call n ctx (seller_price s) (seller_msg s) = Inr (status, offer, words)"
      "\<bar>offer\<bar> \<le> 2 * B"
    by blast
  have o4: "\<bar>offer\<bar> \<le> 4 * B" using b(2) by linarith
  show ?thesis
  proof (cases "status = ACCEPTED")
    case True
    with b o4 assms(4,6) show ?thesis
      by (simp add: round_body_def Let_def bind_err_Inr ctx_def)
  next
    case False
    from respond_to_buyer_offer_total [OF assms(3) b(2) assms(7), of call "int n" words]
    obtain price msg accepts where
      r: "respond_to_buyer_offer call seller offer (int n) words = Inr (price, msg, accepts)"
        "\<bar>price\<bar> \<le> 4 * B"
      by blast
    with b o4 False show ?thesis
      by (cases accepts) (simp_all add: round_body_def Let_def bind_err_Inr ctx_def)
  qed
qed

lemma initial_locals_total:
  assumes "\<bar>base_market_price p\<bar> < 2 ^ 900"
  shows "\<exists>s. initial_locals p b = Inr s \<and> \<bar>seller_price s\<bar> \<le> 2 ^ 901"
proof -
  have "lit_1_5 \<in> literals" by (simp add: literals_def)
  moreover have "\<bar>base_market_price p\<bar> < 2 ^ 1000" using assms by simp
  ultimately obtain f i where
    f: "py_mul (base_market_price p) lit_1_5 = Inr f" "py_int f = Inr i"
      "\<bar>i\<bar> \<le> 2 * \<bar>base_market_price p\<bar>"
    using int_mul_total by blast
  have "\<bar>i\<bar> \<le> 2 ^ 901" using f(3) assms by simp
  with f(1,2) show ?thesis
    by (simp add: initial_locals_def get_opening_price_def bind_err_Inr)
qed

lemma at_round_total:
  assumes "\<bar>base_market_price p\<bar> < 2 ^ 900" and "\<bar>b\<bar> < 2 ^ 900" and "\<bar>m\<bar> < 2 ^ 900"
  shows "n \<le> 10 \<Longrightarrow>
    \<exists>fl. at_round call p b m n = Inr fl \<and>
      (\<forall>s. fl = Continue s \<longrightarrow>
         \<bar>seller_price s\<bar> \<le> 4 ^ n * 2 ^ 901 \<and>
         (n = 0 \<or> your_offers (negotiation s) \<noteq> [] \<and>
                  \<bar>last (your_offers (negotiation s))\<bar> \<le> 4 ^ n * 2 ^ 901))"
proof (induction n)
  case 0
  from initial_locals_total [OF assms(1), of b] show ?case
    by (auto simp: at_round_0 bind_err_Inr)
next
  case (Suc n)
  then obtain fl where fl: "at_round call p b m n = Inr fl"
    and bound: "\<And>s. fl = Continue s \<Longrightarrow>
         \<bar>seller_price s\<bar> \<le> 4 ^ n * 2 ^ 901 \<and>
         (n = 0 \<or> your_offers (negotiation s) \<noteq> [] \<and>
                  \<bar>last (your_offers (negotiation s))\<bar> \<le> 4 ^ n * 2 ^ 901)"
    by auto
  show ?case
  proof (cases fl)
    case (Break s)
    with fl show ?thesis by (simp add: at_round_Suc)
  next
    case (Continue s)
    define B :: int where "B = 4 ^ n * 2 ^ 901"
    have "(4::int) ^ n \<le> 4 ^ 9" using Suc.prems by (intro power_increasing) simp_all
    moreover have "(1::int) \<le> 4 ^ n" by simp
    ultimately have B: "2 ^ 901 \<le> B" "B \<le> 4 ^ 9 * 2 ^ 901" by (simp_all add: B_def)
    note inv = at_round_Continue [OF fl [unfolded Continue]]
    have 1: "\<bar>base_market_price (product (negotiation s))\<bar> \<le> B"
      using assms(1) B(1) inv(1) by simp
    have 2: "\<bar>your_budget (negotiation s)\<bar> \<le> B" using assms(2) B(1) inv(2) by simp
    have 3: "\<bar>min_price (MockSellerAgent_init m)\<bar> \<le> B"
      using assms(3) B(1) by (simp add: MockSellerAgent_init_def)
    have 4: "\<bar>seller_price s\<bar> \<le> B"
      and 5: "n = 0 \<or> your_offers (negotiation s) \<noteq> [] \<and> \<bar>last (your_offers (negotiation s))\<bar> \<le> B"
      using bound [OF Continue] by (simp_all add: B_def)
    have 6: "1000 \<le> B" using B(1) by simp
    have 7: "2 * B < 2 ^ 1000" using B(2) by simp
    from round_body_total [OF 1 2 3 4 5 6 7, of call]
    obtain fl' where fl': "round_body call (MockSellerAgent_init m) n s = Inr fl'"
      "\<bar>seller_price (after fl')\<bar> \<le> 4 * B" "your_offers (negotiation (after fl')) \<noteq> []"
      "\<bar>last (your_offers (negotiation (after fl')))\<bar> \<le> 4 * B"
      by blast
    have "at_round call p b m (Suc n) = Inr fl'" using fl Continue fl'(1) by (simp add: at_round_Suc)
    moreover have "4 * B = 4 ^ Suc n * 2 ^ 901" by (simp add: B_def)
    ultimately show ?thesis using fl'(2,3,4) by auto
  qed
qed

lemma negotiate_total:
  assumes "\<bar>base_market_price p\<bar> < 2 ^ 900" and "\<bar>b\<bar> < 2 ^ 900" and "\<bar>m\<bar> < 2 ^ 900"
  shows "\<exists>s. negotiate call p b m = Inr s"
proof -
  from at_round_total [OF assms, of 10 call] obtain fl where "at_round call p b m 10 = Inr fl"
    by auto
  then show ?thesis by (simp add: negotiate_at_round)
qed

text \<open>
  C5. The loop makes at most 10 passes: whenever the function reaches its \<open>return\<close>, the
  round counter is between 1 and 10 and equals the number of buyer offers made. If all 10
  passes end without a \<open>break\<close> (neither acceptance test passed), the function returns with
  \<open>deal_made = False\<close>, no final price and round 10, and so does the report; and no run without
  a deal ends otherwise. For inputs below \<open>2 ^ 900\<close> in absolute value the function does
  reach its \<open>return\<close>.
\<close>

theorem round_limit:
  "(\<forall>s. negotiate call p b m = Inr s \<longrightarrow>
      1 \<le> current_round (negotiation s) \<and> current_round (negotiation s) \<le> 10 \<and>
      int (length (your_offers (negotiation s))) = current_round (negotiation s) \<and>
      (\<not> deal_made s \<longrightarrow> final_price s = None \<and> current_round (negotiation s) = 10)) \<and>
   (\<forall>s. at_round call p b m 10 = Inr (Continue s) \<longrightarrow>
      negotiate call p b m = Inr s \<and> \<not> deal_made s \<and> final_price s = None \<and>
      current_round (negotiation s) = 10 \<and>
      (\<exists>out. run_negotiation_test call p b m = Inr out \<and> \<not> out_deal_made out \<and>
             out_final_price out = None \<and> rounds out = 10)) \<and>
   (\<forall>out. run_negotiation_test call p b m = Inr out \<longrightarrow>
      rounds out \<le> 10 \<and> (\<not> out_deal_made out \<longrightarrow> out_final_price out = None \<and> rounds out = 10)) \<and>
   (\<bar>base_market_price p\<bar> < 2 ^ 900 \<and> \<bar>b\<bar> < 2 ^ 900 \<and> \<bar>m\<bar> < 2 ^ 900 \<longrightarrow>
      (\<exists>s. negotiate call p b m = Inr s))"
proof (intro conjI allI impI)
  fix s assume "negotiate call p b m = Inr s"
  note r = negotiate_result [OF this]
  show "1 \<le> current_round (negotiation s)" "current_round (negotiation s) \<le> 10"
    "int (length (your_offers (negotiation s))) = current_round (negotiation s)"
    by (rule r)+
  { assume "\<not> deal_made s"
    from r(6) [OF this] show "final_price s = None" "current_round (negotiation s) = 10"
      by simp_all }
next
  fix s assume a: "at_round call p b m 10 = Inr (Continue s)"
  note inv = at_round_Continue [OF a]
  show n: "negotiate call p b m = Inr s" using a by (simp add: negotiate_at_round)
  show "\<not> deal_made s" "final_price s = None" "current_round (negotiation s) = 10"
    using inv by simp_all
  show "\<exists>out. run_negotiation_test call p b m = Inr out \<and> \<not> out_deal_made out \<and>
             out_final_price out = None \<and> rounds out = 10"
    using n inv by (simp add: run_negotiation_test_def bind_err_Inr report_def)
next
  fix out assume "run_negotiation_test call p b m = Inr out"
  then obtain s where s: "negotiate call p b m = Inr s" "report p b s = Inr out"
    by (auto simp: run_negotiation_test_Inr)
  note r = negotiate_result [OF s(1)]
  have o: "rounds out = current_round (negotiation s)" "out_deal_made out = deal_made s"
    "out_final_price out = final_price s"
    using s(2) by (auto simp: report_def bind_err_eq_Inr split: if_splits option.splits)
  show "rounds out \<le> 10" using o r(4) by simp
  { assume "\<not> out_deal_made out"
    with o r(6) show "out_final_price out = None" "rounds out = 10" by simp_all }
next
  assume "\<bar>base_market_price p\<bar> < 2 ^ 900 \<and> \<bar>b\<bar> < 2 ^ 900 \<and> \<bar>m\<bar> < 2 ^ 900"
  then show "\<exists>s. negotiate call p b m = Inr s" using negotiate_total by blast
qed

section \<open>A run that uses all ten rounds\<close>

lemmas run_eval = at_round_def initial_locals_def round_body_def buyer_turn_def strategy_defs
  arith_eval numbers_def silent_def upt_rec

text \<open>On \<open>crate\<close> with budget 650 and seller floor 700 nobody accepts.\<close>

lemma stalled_run:
  "map_sum id (\<lambda>fl. (continues fl, numbers (after fl))) (at_round silent crate 650 700 10) =
     Inr (True, False, None, 10,
          [600, 650, 650, 650, 650, 650, 650, 650, 650, 650],
          [1500, 700, 747, 747, 747, 747, 747, 747, 747, 700, 700], 700)"
  by (simp add: run_eval crate_def cong: eval_congs)

lemma stalled_locals:
  obtains s where "at_round silent crate 650 700 10 = Inr (Continue s)"
    and "your_offers (negotiation s) = [600, 650, 650, 650, 650, 650, 650, 650, 650, 650]"
    and "seller_offers (negotiation s) = [1500, 700, 747, 747, 747, 747, 747, 747, 747, 700, 700]"
proof -
  from stalled_run obtain fl where fl: "at_round silent crate 650 700 10 = Inr fl"
    "continues fl" "numbers (after fl) = (False, None, 10,
          [600, 650, 650, 650, 650, 650, 650, 650, 650, 650],
          [1500, 700, 747, 747, 747, 747, 747, 747, 747, 700, 700], 700)"
    by (cases "at_round silent crate 650 700 10") auto
  then obtain s where "fl = Continue s" by (cases fl) simp_all
  with fl that show thesis by (simp add: numbers_def)
qed

theorem round_limit_witness:
  "\<exists>s out. at_round silent crate 650 700 10 = Inr (Continue s) \<and>
     negotiate silent crate 650 700 = Inr s \<and> \<not> deal_made s \<and> final_price s = None \<and>
     current_round (negotiation s) = 10 \<and> length (your_offers (negotiation s)) = 10 \<and>
     run_negotiation_test silent crate 650 700 = Inr out \<and> \<not> out_deal_made out \<and>
     out_final_price out = None \<and> rounds out = 10 \<and>
     \<bar>base_market_price crate\<bar> < 2 ^ 900 \<and> \<bar>650 :: int\<bar> < 2 ^ 900 \<and> \<bar>700 :: int\<bar> < 2 ^ 900"
proof -
  obtain s where s: "at_round silent crate 650 700 10 = Inr (Continue s)"
    and o: "your_offers (negotiation s) = [600, 650, 650, 650, 650, 650, 650, 650, 650, 650]"
    by (rule stalled_locals)
  note t = round_limit [of silent crate 650 700]
  from t s obtain out where "run_negotiation_test silent crate 650 700 = Inr out"
    "\<not> out_deal_made out" "out_final_price out = None" "rounds out = 10"
    by blast
  moreover have "negotiate silent crate 650 700 = Inr s" "\<not> deal_made s" "final_price s = None"
    "current_round (negotiation s) = 10"
    using t s by blast+
  ultimately show ?thesis using s o by (auto simp: crate_def)
qed

section \<open>Which rounds are under time pressure\<close>





section \<open>Bounds on the recorded offers\<close>

lemma buyer_turn_le_budget:
  assumes "buyer_turn call n ctx price msg = Inr (status, offer, words)"
  shows "offer \<le> your_budget ctx"
proof (cases "n = 0")
  case True
  with assms show ?thesis
    by (auto simp: buyer_turn_def generate_opening_offer_def bind_err_eq_Inr Let_def)
next
  case False
  with assms have "buyer_decision (respond_to_seller_offer call ctx price msg) = Inr (status, offer)"
    by (simp add: buyer_turn_def buyer_decision_def)
  then show ?thesis
    by (auto simp: buyer_decision_eq buyer_accepts_def spec_counter_offer_def bind_err_eq_Inr
          Let_def split: if_splits)
qed

lemma round_body_offers:
  assumes "round_body call seller n s = Inr fl"
  shows "\<exists>offer. your_offers (negotiation (after fl)) = your_offers (negotiation s) @ [offer] \<and>
           offer \<le> your_budget (negotiation s)"
    and "seller_offers (negotiation (after fl)) = seller_offers (negotiation s) \<or>
         (\<exists>price. seller_offers (negotiation (after fl)) = seller_offers (negotiation s) @ [price] \<and>
            min_price seller \<le> price)"
proof -
  have b: "offer \<le> your_budget (negotiation s)"
    if "buyer_turn call n ((negotiation s)\<lparr>current_round := int n + 1\<rparr>) (seller_price s)
          (seller_msg s) = Inr (status, offer, words)" for status offer words
    using buyer_turn_le_budget [OF that] by simp
  from assms show "\<exists>offer. your_offers (negotiation (after fl)) = your_offers (negotiation s) @ [offer] \<and>
           offer \<le> your_budget (negotiation s)"
    by (cases rule: round_body_cases) (use b in auto)
  from assms show "seller_offers (negotiation (after fl)) = seller_offers (negotiation s) \<or>
         (\<exists>price. seller_offers (negotiation (after fl)) = seller_offers (negotiation s) @ [price] \<and>
            min_price seller \<le> price)"
    by (cases rule: round_body_cases) (use respond_to_buyer_offer_accepts(3) in auto)
qed

lemma at_round_bounds:
  "at_round call p b m n = Inr fl \<Longrightarrow>
     (\<forall>offer \<in> set (your_offers (negotiation (after fl))). offer \<le> b) \<and>
     seller_offers (negotiation (after fl)) \<noteq> [] \<and>
     (\<exists>msg. get_opening_price p = Inr (hd (seller_offers (negotiation (after fl))), msg)) \<and>
     (\<forall>price \<in> set (tl (seller_offers (negotiation (after fl)))). m \<le> price)"
proof (induction n arbitrary: fl)
  case 0
  then obtain s where s: "initial_locals p b = Inr s" "fl = Continue s"
    by (auto simp: at_round_0 bind_err_eq_Inr)
  then show ?case using initial_locals_fields [OF s(1)]
    by (cases "get_opening_price p") auto
next
  case (Suc n)
  from Suc.prems obtain fl0 where fl0: "at_round call p b m n = Inr fl0"
    by (cases "at_round call p b m n") (simp_all add: at_round_Suc)
  note ih = Suc.IH [OF fl0]
  show ?case
  proof (cases fl0)
    case (Break s)
    with fl0 Suc.prems have "fl = fl0" by (simp add: at_round_Suc)
    with ih show ?thesis by simp
  next
    case (Continue s)
    with fl0 Suc.prems have body: "round_body call (MockSellerAgent_init m) n s = Inr fl"
      by (simp add: at_round_Suc)
    have bud: "your_budget (negotiation s) = b"
      using at_round_Continue(2) fl0 Continue by blast
    from round_body_offers [OF body] ih bud Continue show ?thesis
      by (auto simp: MockSellerAgent_init_def)
  qed
qed

lemma negotiate_bounds:
  assumes "negotiate call p b m = Inr s"
  shows "\<forall>offer \<in> set (your_offers (negotiation s)). offer \<le> b"
    and "seller_offers (negotiation s) \<noteq> []"
    and "(\<exists>msg. get_opening_price p = Inr (hd (seller_offers (negotiation s)), msg))"
    and "\<forall>price \<in> set (tl (seller_offers (negotiation s))). m \<le> price"
proof -
  from assms obtain fl where "at_round call p b m 10 = Inr fl" "s = after fl"
    by (cases "at_round call p b m 10") (simp_all add: negotiate_at_round)
  with at_round_bounds [of call p b m 10 fl]
  show "\<forall>offer \<in> set (your_offers (negotiation s)). offer \<le> b"
    and "seller_offers (negotiation s) \<noteq> []"
    and "(\<exists>msg. get_opening_price p = Inr (hd (seller_offers (negotiation s)), msg))"
    and "\<forall>price \<in> set (tl (seller_offers (negotiation s))). m \<le> price"
    by simp_all
qed

section \<open>The seller's counters over a run\<close>

text \<open>The "medium" scenario of \<open>test_agent\<close> for the first product: budget 180000, floor 153000.\<close>

lemma medium_run:
  "map_sum id numbers (negotiate silent alphonso 180000 153000) =
     Inr (True, Some 180000, 6,
          [108000, 118800, 130680, 143748, 164310, 180000],
          [270000, 153000, 153000, 153000, 165310, 188956], 180000)"
  by (simp add: negotiate_def run_eval alphonso_def cong: eval_congs)

text \<open>
  C4 (amended). In every run the recorded seller prices start with the opening price, and
  no counter after it is below \<open>min_price\<close>. (Nothing makes the sequence non-increasing: a
  counter is \<open>max(min_price, int(buyer_offer * 1.15))\<close>, or \<open>* 1.05\<close>, and rises with the
  buyer's offers.)
\<close>

theorem seller_floor:
  "negotiate call p b m = Inr s \<longrightarrow>
     seller_offers (negotiation s) \<noteq> [] \<and>
     (\<exists>msg. get_opening_price p = Inr (hd (seller_offers (negotiation s)), msg)) \<and>
     (\<forall>price \<in> set (tl (seller_offers (negotiation s))). m \<le> price)"
  using negotiate_bounds(2,3,4) [of call p b m s] by blast

theorem seller_floor_witness:
  "\<exists>s. negotiate silent alphonso 180000 153000 = Inr s \<and>
       seller_offers (negotiation s) = [270000, 153000, 153000, 153000, 165310, 188956] \<and>
       (\<forall>price \<in> set (tl (seller_offers (negotiation s))). 153000 \<le> price)"
proof -
  from medium_run obtain s where s: "negotiate silent alphonso 180000 153000 = Inr s"
    "seller_offers (negotiation s) = [270000, 153000, 153000, 153000, 165310, 188956]"
    by (cases "negotiate silent alphonso 180000 153000") (auto simp: numbers_def)
  with seller_floor [of silent alphonso 180000 153000 s] show ?thesis by blast
qed

text \<open>
  C4 as stated fails in that scenario: the seller's price rises from 153000 to 165310 and
  then to 188956.
\<close>

theorem seller_monotone_counterexample:
  "map_sum id numbers (negotiate silent alphonso 180000 153000) =
     Inr (True, Some 180000, 6,
          [108000, 118800, 130680, 143748, 164310, 180000],
          [270000, 153000, 153000, 153000, 165310, 188956], 180000) \<and>
   \<not> sorted (rev [270000, 153000, 153000, 153000, 165310, 188956 :: int])"
  using medium_run by simp

section \<open>The buyer's offers over a run\<close>






text \<open>The context \<open>after_adjustment\<close> holds the numbers of a run that has made three passes.\<close>

lemma adjustment_reached:
  "map_sum id (\<lambda>fl. (continues fl, numbers (after fl))) (at_round silent crate 660 690 3) =
     Inr (True, False, None, 3, [600, - 310, - 341], [1500, 690, 690, 690], 690)"
  by (simp add: run_eval crate_def cong: eval_congs)


section \<open>Inputs that are not positive\<close>

lemma negotiate_offers: "negotiate call p b m = Inr s \<Longrightarrow> your_offers (negotiation s) \<noteq> []"
  using negotiate_result(3,5) [of call p b m s] by auto

text \<open>
  C9 (amended). The code validates nothing. For any quantity, and any budget, base market
  price and seller floor below \<open>2 ^ 900\<close> in absolute value, positive or not,
  \<open>run_negotiation_test\<close> goes through the round loop and reaches its \<open>return\<close> statement
  after 1 to 10 rounds with at least one buyer offer made; no exception stands for a
  configuration error.
\<close>

theorem nothing_validated:
  "\<bar>base\<bar> < 2 ^ 900 \<and> \<bar>b\<bar> < 2 ^ 900 \<and> \<bar>m\<bar> < 2 ^ 900 \<longrightarrow>
     (\<exists>s. negotiate call (p\<lparr>quantity := q, base_market_price := base\<rparr>) b m = Inr s \<and>
          your_offers (negotiation s) \<noteq> [] \<and>
          1 \<le> current_round (negotiation s) \<and> current_round (negotiation s) \<le> 10)"
proof
  assume a: "\<bar>base\<bar> < 2 ^ 900 \<and> \<bar>b\<bar> < 2 ^ 900 \<and> \<bar>m\<bar> < 2 ^ 900"
  define p' where "p' = p\<lparr>quantity := q, base_market_price := base\<rparr>"
  have "\<bar>base_market_price p'\<bar> < 2 ^ 900" using a by (simp add: p'_def)
  with a obtain s where s: "negotiate call p' b m = Inr s" using negotiate_total by blast
  from negotiate_offers [OF s] negotiate_result(3,4) [OF s] s
  show "\<exists>s. negotiate call (p\<lparr>quantity := q, base_market_price := base\<rparr>) b m = Inr s \<and>
          your_offers (negotiation s) \<noteq> [] \<and>
          1 \<le> current_round (negotiation s) \<and> current_round (negotiation s) \<le> 10"
    unfolding p'_def by blast
qed

theorem nothing_validated_witness:
  "\<bar>- 1000 :: int\<bar> < 2 ^ 900 \<and> \<bar>- 5 :: int\<bar> < 2 ^ 900 \<and> \<bar>- 100 :: int\<bar> < 2 ^ 900 \<and>
   (\<exists>s. negotiate silent (crate\<lparr>quantity := 0, base_market_price := - 1000\<rparr>) (- 5) (- 100) = Inr s \<and>
        your_offers (negotiation s) \<noteq> [] \<and>
        1 \<le> current_round (negotiation s) \<and> current_round (negotiation s) \<le> 10)"
  using nothing_validated [where base = "- 1000" and b = "- 5" and m = "- 100" and call = silent
      and p = crate and q = 0]
  by simp

text \<open>
  C9 as stated fails: with quantity 0 and budget -5 (seller floor -100) the run is not
  refused; it closes a deal at the price -5 in round 1.
\<close>

theorem refusal_counterexample:
  "run_negotiation_test silent (crate\<lparr>quantity := 0\<rparr>) (- 5) (- 100) =
     Inr \<lparr>out_deal_made = True, out_final_price = Some (- 5), rounds = 1, savings = 0,
          savings_pct = Some (Quotient 0 (- 5)), below_market_pct = Some (Quotient 1005 1000),
          conversation = [(Seller, OpeningPrice ''B'' ''Crate'' 1500), (Buyer, OpeningOffer (- 5)),
                          (Seller, Generated [])]\<rparr>"
  by (simp add: run_negotiation_test_def negotiate_def report_def py_truediv_def run_eval
        crate_def cong: eval_congs)

end
